theory Spec2Isabelle
  imports Main "HOL-Library.Word"
begin

section \<open>Threads, wait queues and the visible effects of a call\<close>

text \<open>
  The uthread synchronisation primitives of \<^verbatim>\<open>user/parlib/mutex.c\<close>. A thread handle
  (\<^verbatim>\<open>struct uthread *\<close>) is a number; a possibly-NULL handle is an \<open>option\<close>. The storage
  of a sync object (\<^verbatim>\<open>uth_sync_t\<close>) holds an ordered collection of blocked threads and
  is a list, head first. Source names starting with two underscores are written with the
  prefix \<open>uu_\<close>.

  Every function returns an \<open>option\<close>: \<open>None\<close> says that the call does not return (it
  spins on a spinlock that nobody will release, fails an assertion, or loops forever).

  Modelled from the spec: \<^verbatim>\<open>uthread_yield\<close>, the calls into the second-level scheduler
  (\<^verbatim>\<open>uthread_has_blocked\<close>, \<^verbatim>\<open>uthread_runnable\<close>) and the alarm subsystem
  (\<^verbatim>\<open>set_alarm\<close>, \<^verbatim>\<open>unset_alarm\<close>) are not in the file. What a call does to them, and
  to spinlocks, is returned as a list of events in program order: \<open>Runnable t\<close> is the
  call \<^verbatim>\<open>uthread_runnable(t)\<close>, "asks the 2LS to make that waiter runnable".
\<close>

type_synonym uthread = nat
type_synonym uth_sync_t = "uthread list"
type_synonym timespec = nat

datatype lock_id = Sem_lock | Cv_lock | Rw_lock

datatype event =
    Spin_lock lock_id
  | Spin_unlock lock_id
  | Yield uthread
  | Has_blocked uthread
  | Runnable uthread
  | Set_alarm uthread timespec
  | Unset_alarm uthread

text \<open>
  \<^verbatim>\<open>sched_ops\<close> is the table of callbacks of the second-level scheduler; the table itself
  is not part of \<^verbatim>\<open>mutex.c\<close>, so it is a parameter of every function that reads it. A
  NULL callback is \<open>None\<close>. A callback on sync storage is a function on the queue;
  \<^verbatim>\<open>sync_init\<close> writes storage that holds nothing meaningful before, so it is the
  queue it leaves there. \<^verbatim>\<open>thread_bulk_runnable\<close> returns what is left of the queue and
  the events it caused.
\<close>

record sched_ops =
  sync_init :: "uth_sync_t option"
  sync_enqueue :: "(uthread \<Rightarrow> uth_sync_t \<Rightarrow> uth_sync_t) option"
  sync_get_next :: "(uth_sync_t \<Rightarrow> uthread option \<times> uth_sync_t) option"
  sync_get_uth :: "(uth_sync_t \<Rightarrow> uthread \<Rightarrow> bool \<times> uth_sync_t) option"
  sync_swap :: "(uth_sync_t \<Rightarrow> uth_sync_t \<Rightarrow> uth_sync_t \<times> uth_sync_t) option"
  sync_is_empty :: "(uth_sync_t \<Rightarrow> bool) option"
  thread_bulk_runnable :: "(uth_sync_t \<Rightarrow> uth_sync_t \<times> event list) option"

text \<open>A second-level scheduler that overrides nothing: every callback is NULL.\<close>

definition no_hooks :: sched_ops where
  "no_hooks = \<lparr> sync_init = None, sync_enqueue = None, sync_get_next = None,
      sync_get_uth = None, sync_swap = None, sync_is_empty = None,
      thread_bulk_runnable = None \<rparr>"

text \<open>
  The calling context: \<^verbatim>\<open>current_uthread\<close>, and whether \<^verbatim>\<open>assert_can_block()\<close> holds.
  Modelled from the spec: "every blocking entry asserts that the caller is in a context
  permitted to block"; where the assertion fails the call does not return.
\<close>

record uth_ctx =
  current_uthread :: uthread
  can_block :: bool

subsection \<open>Collaborators that are not in the file\<close>

text \<open>
  Modelled from the spec: the spinlock (\<^verbatim>\<open>spin_pdr_init\<close>, \<^verbatim>\<open>spin_pdr_lock\<close>,
  \<^verbatim>\<open>spin_pdr_unlock\<close>) is "assumed given". A lock is the flag "held". Acquiring a held
  lock spins until its holder releases it; in one call run on its own nobody does, so the
  call does not return.
\<close>

definition spin_pdr_init :: bool where
  "spin_pdr_init = False"

definition spin_pdr_lock :: "bool \<Rightarrow> bool option" where
  "spin_pdr_lock l = (if l then None else Some True)"

definition spin_pdr_unlock :: "bool \<Rightarrow> bool" where
  "spin_pdr_unlock l = False"

text \<open>
  Modelled from the spec: the once-control (\<^verbatim>\<open>parlib_run_once\<close>,
  \<^verbatim>\<open>parlib_set_ran_once\<close>): "the initializer function runs at most once per primitive".
  The control is a flag of the primitive, given by its selector and its update function.
\<close>

definition parlib_run_once ::
  "('a \<Rightarrow> bool) \<Rightarrow> ((bool \<Rightarrow> bool) \<Rightarrow> 'a \<Rightarrow> 'a) \<Rightarrow> ('a \<Rightarrow> 'a) \<Rightarrow> 'a \<Rightarrow> 'a" where
  "parlib_run_once once_ctl once_ctl_update init_fn arg =
     (if once_ctl arg then arg else once_ctl_update (\<lambda>_. True) (init_fn arg))"

definition parlib_set_ran_once :: "((bool \<Rightarrow> bool) \<Rightarrow> 'a \<Rightarrow> 'a) \<Rightarrow> 'a \<Rightarrow> 'a" where
  "parlib_set_ran_once once_ctl_update arg = once_ctl_update (\<lambda>_. True) arg"

subsection \<open>Default sync object implementation\<close>

definition uth_default_sync_init :: uth_sync_t where
  "uth_default_sync_init = []"

definition uth_default_sync_enqueue :: "uthread \<Rightarrow> uth_sync_t \<Rightarrow> uth_sync_t" where
  "uth_default_sync_enqueue uth sync = sync @ [uth]"

definition uth_default_sync_get_next :: "uth_sync_t \<Rightarrow> uthread option \<times> uth_sync_t" where
  "uth_default_sync_get_next sync =
     (case sync of [] \<Rightarrow> (None, []) | first # rest \<Rightarrow> (Some first, rest))"

fun uth_default_sync_get_uth :: "uth_sync_t \<Rightarrow> uthread \<Rightarrow> bool \<times> uth_sync_t" where
  "uth_default_sync_get_uth [] uth = (False, [])"
| "uth_default_sync_get_uth (i # tq) uth =
     (if i = uth then (True, tq)
      else (let (found, tq') = uth_default_sync_get_uth tq uth in (found, i # tq')))"

definition uth_default_sync_swap :: "uth_sync_t \<Rightarrow> uth_sync_t \<Rightarrow> uth_sync_t \<times> uth_sync_t" where
  "uth_default_sync_swap a b = (b, a)"

definition uth_default_sync_is_empty :: "uth_sync_t \<Rightarrow> bool" where
  "uth_default_sync_is_empty sync = (sync = [])"

subsection \<open>External uthread sync interface\<close>

definition uu_uth_sync_init :: "sched_ops \<Rightarrow> uth_sync_t" where
  "uu_uth_sync_init ops =
     (case sync_init ops of Some sync \<Rightarrow> sync | None \<Rightarrow> uth_default_sync_init)"

definition uu_uth_sync_enqueue :: "sched_ops \<Rightarrow> uthread \<Rightarrow> uth_sync_t \<Rightarrow> uth_sync_t" where
  "uu_uth_sync_enqueue ops uth sync =
     (case sync_enqueue ops of Some f \<Rightarrow> f uth sync
      | None \<Rightarrow> uth_default_sync_enqueue uth sync)"

definition uu_uth_sync_get_next :: "sched_ops \<Rightarrow> uth_sync_t \<Rightarrow> uthread option \<times> uth_sync_t" where
  "uu_uth_sync_get_next ops sync =
     (case sync_get_next ops of Some f \<Rightarrow> f sync | None \<Rightarrow> uth_default_sync_get_next sync)"

definition uu_uth_sync_get_uth :: "sched_ops \<Rightarrow> uth_sync_t \<Rightarrow> uthread \<Rightarrow> bool \<times> uth_sync_t" where
  "uu_uth_sync_get_uth ops sync uth =
     (case sync_get_uth ops of Some f \<Rightarrow> f sync uth
      | None \<Rightarrow> uth_default_sync_get_uth sync uth)"

definition uu_uth_sync_swap ::
  "sched_ops \<Rightarrow> uth_sync_t \<Rightarrow> uth_sync_t \<Rightarrow> uth_sync_t \<times> uth_sync_t" where
  "uu_uth_sync_swap ops a b =
     (case sync_swap ops of Some f \<Rightarrow> f a b | None \<Rightarrow> uth_default_sync_swap a b)"

definition uu_uth_sync_is_empty :: "sched_ops \<Rightarrow> uth_sync_t \<Rightarrow> bool" where
  "uu_uth_sync_is_empty ops sync =
     (case sync_is_empty ops of Some f \<Rightarrow> f sync | None \<Rightarrow> uth_default_sync_is_empty sync)"

text \<open>
  The loop of \<^verbatim>\<open>__uth_sync_wake_all\<close>: pop and wake until \<^verbatim>\<open>__uth_sync_get_next\<close>
  returns NULL. Under a scheduler whose \<^verbatim>\<open>sync_get_next\<close> never returns NULL the loop
  does not end, and the value is \<open>None\<close>.
\<close>

partial_function (option) wake_all_loop ::
  "sched_ops \<Rightarrow> uth_sync_t \<Rightarrow> event list \<Rightarrow> (uth_sync_t \<times> event list) option" where
  "wake_all_loop ops wakees log =
     (case uu_uth_sync_get_next ops wakees of
        (None, wakees') \<Rightarrow> Some (wakees', log)
      | (Some uth_i, wakees') \<Rightarrow> wake_all_loop ops wakees' (log @ [Runnable uth_i]))"

declare wake_all_loop.simps [code]

definition uu_uth_sync_wake_all ::
  "sched_ops \<Rightarrow> uth_sync_t \<Rightarrow> (uth_sync_t \<times> event list) option" where
  "uu_uth_sync_wake_all ops wakees =
     (case thread_bulk_runnable ops of
        Some f \<Rightarrow> Some (f wakees)
      | None \<Rightarrow> wake_all_loop ops wakees [])"

section \<open>Timeouts\<close>

text \<open>
  \<^verbatim>\<open>struct timeout_blob\<close>. \<^verbatim>\<open>sync_ptr\<close> and \<^verbatim>\<open>lock_ptr\<close> point to the queue and the
  spinlock of the primitive the thread waits on: the handler below takes that lock and
  that queue as arguments and returns them, and \<open>lock_ptr\<close> keeps the lock's name.
\<close>

record timeout_blob =
  timed_out :: bool
  uth :: uthread
  lock_ptr :: lock_id

text \<open>
  Modelled from the spec: \<^verbatim>\<open>uthread_yield(TRUE, cb, arg)\<close> suspends the caller and then
  runs the callback ("atomic enqueue-and-yield"); the caller goes on after the yield only
  once somebody has made it runnable. A function that may
  yield is therefore in two parts: the part up to the end of the callback, whose result
  says whether the call returned or is suspended (with the locals that live in its stack
  frame across the yield: for a timed wait the timeout blob, present iff
  \<^verbatim>\<open>abs_timeout\<close> is not NULL), and a \<open>_resume\<close> part, the code after the yield.
\<close>

datatype ('a, 'f) yield = Returned 'a | Yielded 'f

definition timeout_handler ::
  "sched_ops \<Rightarrow> timeout_blob \<Rightarrow> bool \<Rightarrow> uth_sync_t
     \<Rightarrow> (timeout_blob \<times> bool \<times> uth_sync_t \<times> event list) option" where
  "timeout_handler ops blob lock sync =
     (case spin_pdr_lock lock of
        None \<Rightarrow> None
      | Some lock \<Rightarrow>
          let log = [Spin_lock (lock_ptr blob)];
              (found, sync) = uu_uth_sync_get_uth ops sync (uth blob);
              blob = (if found then blob\<lparr>timed_out := True\<rparr> else blob);
              lock = spin_pdr_unlock lock;
              log = log @ [Spin_unlock (lock_ptr blob)];
              log = (if timed_out blob then log @ [Runnable (uth blob)] else log)
          in Some (blob, lock, sync, log))"

definition set_timeout_blob :: "uth_ctx \<Rightarrow> lock_id \<Rightarrow> timeout_blob" where
  "set_timeout_blob ctx lock_ptr' =
     \<lparr> timed_out = False, uth = current_uthread ctx, lock_ptr = lock_ptr' \<rparr>"

text \<open>
  \<^verbatim>\<open>set_timeout_alarm\<close> arms the alarm for the blob; the alarm subsystem is not in the
  file, and arming is the event \<open>Set_alarm\<close>.
\<close>

definition set_timeout_alarm :: "timeout_blob \<Rightarrow> timespec \<Rightarrow> event list" where
  "set_timeout_alarm blob abs_timeout = [Set_alarm (uth blob) abs_timeout]"

section \<open>Semaphores and mutexes\<close>

record uth_semaphore =
  sem_lock :: bool
  sem_count :: "32 word"
  sem_sync_obj :: uth_sync_t
  sem_once_ctl :: bool

definition uu_uth_semaphore_init :: "sched_ops \<Rightarrow> uth_semaphore \<Rightarrow> uth_semaphore" where
  "uu_uth_semaphore_init ops sem =
     sem\<lparr> sem_lock := spin_pdr_init, sem_sync_obj := uu_uth_sync_init ops \<rparr>"

definition uth_semaphore_init :: "sched_ops \<Rightarrow> uth_semaphore \<Rightarrow> 32 word \<Rightarrow> uth_semaphore" where
  "uth_semaphore_init ops sem count =
     (let sem = uu_uth_semaphore_init ops sem;
          sem = sem\<lparr> sem_count := count \<rparr>
      in parlib_set_ran_once sem_once_ctl_update sem)"

definition uu_semaphore_cb ::
  "sched_ops \<Rightarrow> uthread \<Rightarrow> uth_semaphore \<Rightarrow> uth_semaphore \<times> event list" where
  "uu_semaphore_cb ops uth' sem =
     (let log = [Has_blocked uth'];
          sem = sem\<lparr> sem_sync_obj := uu_uth_sync_enqueue ops uth' (sem_sync_obj sem) \<rparr>;
          sem = sem\<lparr> sem_lock := spin_pdr_unlock (sem_lock sem) \<rparr>
      in (sem, log @ [Spin_unlock Sem_lock]))"

definition uth_semaphore_timed_down ::
  "sched_ops \<Rightarrow> uth_ctx \<Rightarrow> uth_semaphore \<Rightarrow> timespec option
     \<Rightarrow> ((bool, timeout_blob option) yield \<times> uth_semaphore \<times> event list) option" where
  "uth_semaphore_timed_down ops ctx sem abs_timeout =
     (if \<not> can_block ctx then None
      else
        let sem = parlib_run_once sem_once_ctl sem_once_ctl_update
                    (uu_uth_semaphore_init ops) sem
        in case spin_pdr_lock (sem_lock sem) of
             None \<Rightarrow> None
           | Some l \<Rightarrow>
               let sem = sem\<lparr> sem_lock := l \<rparr>;
                   log = [Spin_lock Sem_lock]
               in if sem_count sem > 0 then
                    let sem = sem\<lparr> sem_count := sem_count sem - 1 \<rparr>;
                        sem = sem\<lparr> sem_lock := spin_pdr_unlock (sem_lock sem) \<rparr>
                    in Some (Returned True, sem, log @ [Spin_unlock Sem_lock])
                  else
                    let blob = (case abs_timeout of
                                  None \<Rightarrow> None
                                | Some ts \<Rightarrow> Some (set_timeout_blob ctx Sem_lock));
                        log = (case abs_timeout of
                                 None \<Rightarrow> log
                               | Some ts \<Rightarrow>
                                   log @ set_timeout_alarm (set_timeout_blob ctx Sem_lock) ts);
                        log = log @ [Yield (current_uthread ctx)];
                        (sem, cb_log) = uu_semaphore_cb ops (current_uthread ctx) sem
                    in Some (Yielded blob, sem, log @ cb_log))"

text \<open>
  After the yield of \<^verbatim>\<open>uth_semaphore_timed_down\<close>: the alarm is unset and the blob says
  whether the wait timed out. By then the alarm handler has run or never will.
\<close>

definition uth_semaphore_timed_down_resume :: "timeout_blob option \<Rightarrow> bool \<times> event list" where
  "uth_semaphore_timed_down_resume blob =
     (case blob of
        Some b \<Rightarrow> (if timed_out b then False else True, [Unset_alarm (uth b)])
      | None \<Rightarrow> (True, []))"

definition uth_semaphore_down ::
  "sched_ops \<Rightarrow> uth_ctx \<Rightarrow> uth_semaphore \<Rightarrow> ((bool, timeout_blob option) yield \<times> uth_semaphore \<times> event list) option" where
  "uth_semaphore_down ops ctx sem = uth_semaphore_timed_down ops ctx sem None"

definition uth_semaphore_trydown ::
  "sched_ops \<Rightarrow> uth_ctx \<Rightarrow> uth_semaphore \<Rightarrow> (bool \<times> uth_semaphore \<times> event list) option" where
  "uth_semaphore_trydown ops ctx sem =
     (let ret = False in
      if \<not> can_block ctx then None
      else
        let sem = parlib_run_once sem_once_ctl sem_once_ctl_update
                    (uu_uth_semaphore_init ops) sem
        in case spin_pdr_lock (sem_lock sem) of
             None \<Rightarrow> None
           | Some l \<Rightarrow>
               let sem = sem\<lparr> sem_lock := l \<rparr>;
                   log = [Spin_lock Sem_lock];
                   (ret, sem) = (if sem_count sem > 0
                                 then (True, sem\<lparr> sem_count := sem_count sem - 1 \<rparr>)
                                 else (ret, sem));
                   sem = sem\<lparr> sem_lock := spin_pdr_unlock (sem_lock sem) \<rparr>
               in Some (ret, sem, log @ [Spin_unlock Sem_lock]))"

definition uth_semaphore_up ::
  "sched_ops \<Rightarrow> uth_semaphore \<Rightarrow> (uth_semaphore \<times> event list) option" where
  "uth_semaphore_up ops sem =
     (let sem = parlib_run_once sem_once_ctl sem_once_ctl_update
                  (uu_uth_semaphore_init ops) sem
      in case spin_pdr_lock (sem_lock sem) of
           None \<Rightarrow> None
         | Some l \<Rightarrow>
             let sem = sem\<lparr> sem_lock := l \<rparr>;
                 log = [Spin_lock Sem_lock];
                 (uth', q) = uu_uth_sync_get_next ops (sem_sync_obj sem);
                 sem = sem\<lparr> sem_sync_obj := q \<rparr>;
                 sem = (if uth' = None then sem\<lparr> sem_count := sem_count sem + 1 \<rparr> else sem);
                 sem = sem\<lparr> sem_lock := spin_pdr_unlock (sem_lock sem) \<rparr>;
                 log = log @ [Spin_unlock Sem_lock];
                 log = (case uth' of Some t \<Rightarrow> log @ [Runnable t] | None \<Rightarrow> log)
             in Some (sem, log))"

text \<open>A mutex is a semaphore (\<^verbatim>\<open>uth_mutex_t\<close>) whose count starts at 1.\<close>

definition uu_uth_mutex_init :: "sched_ops \<Rightarrow> uth_semaphore \<Rightarrow> uth_semaphore" where
  "uu_uth_mutex_init ops mtx =
     (let mtx = uu_uth_semaphore_init ops mtx
      in mtx\<lparr> sem_count := 1 \<rparr>)"

definition uth_mutex_init :: "sched_ops \<Rightarrow> uth_semaphore \<Rightarrow> uth_semaphore" where
  "uth_mutex_init ops mtx =
     parlib_set_ran_once sem_once_ctl_update (uu_uth_mutex_init ops mtx)"

definition uth_mutex_timed_lock ::
  "sched_ops \<Rightarrow> uth_ctx \<Rightarrow> uth_semaphore \<Rightarrow> timespec option
     \<Rightarrow> ((bool, timeout_blob option) yield \<times> uth_semaphore \<times> event list) option" where
  "uth_mutex_timed_lock ops ctx mtx abs_timeout =
     (let mtx = parlib_run_once sem_once_ctl sem_once_ctl_update (uu_uth_mutex_init ops) mtx
      in uth_semaphore_timed_down ops ctx mtx abs_timeout)"

definition uth_mutex_timed_lock_resume :: "timeout_blob option \<Rightarrow> bool \<times> event list" where
  "uth_mutex_timed_lock_resume blob = uth_semaphore_timed_down_resume blob"

definition uth_mutex_lock ::
  "sched_ops \<Rightarrow> uth_ctx \<Rightarrow> uth_semaphore
     \<Rightarrow> ((bool, timeout_blob option) yield \<times> uth_semaphore \<times> event list) option" where
  "uth_mutex_lock ops ctx mtx =
     (let mtx = parlib_run_once sem_once_ctl sem_once_ctl_update (uu_uth_mutex_init ops) mtx
      in uth_semaphore_down ops ctx mtx)"

definition uth_mutex_trylock ::
  "sched_ops \<Rightarrow> uth_ctx \<Rightarrow> uth_semaphore \<Rightarrow> (bool \<times> uth_semaphore \<times> event list) option" where
  "uth_mutex_trylock ops ctx mtx =
     (let mtx = parlib_run_once sem_once_ctl sem_once_ctl_update (uu_uth_mutex_init ops) mtx
      in uth_semaphore_trydown ops ctx mtx)"

definition uth_mutex_unlock ::
  "sched_ops \<Rightarrow> uth_semaphore \<Rightarrow> (uth_semaphore \<times> event list) option" where
  "uth_mutex_unlock ops mtx = uth_semaphore_up ops mtx"

section \<open>Recursive mutexes\<close>

record uth_recurse_mutex =
  rm_mtx :: uth_semaphore
  rm_lockholder :: "uthread option"
  rm_count :: "32 word"
  rm_once_ctl :: bool

definition uu_uth_recurse_mutex_init ::
  "sched_ops \<Rightarrow> uth_recurse_mutex \<Rightarrow> uth_recurse_mutex" where
  "uu_uth_recurse_mutex_init ops r_mtx =
     (let r_mtx = r_mtx\<lparr> rm_mtx := uu_uth_mutex_init ops (rm_mtx r_mtx) \<rparr>;
          r_mtx = r_mtx\<lparr> rm_mtx := parlib_set_ran_once sem_once_ctl_update (rm_mtx r_mtx) \<rparr>;
          r_mtx = r_mtx\<lparr> rm_lockholder := None \<rparr>
      in r_mtx\<lparr> rm_count := 0 \<rparr>)"

definition uth_recurse_mutex_init ::
  "sched_ops \<Rightarrow> uth_recurse_mutex \<Rightarrow> uth_recurse_mutex" where
  "uth_recurse_mutex_init ops r_mtx =
     parlib_set_ran_once rm_once_ctl_update (uu_uth_recurse_mutex_init ops r_mtx)"

definition uth_recurse_mutex_timed_lock ::
  "sched_ops \<Rightarrow> uth_ctx \<Rightarrow> uth_recurse_mutex \<Rightarrow> timespec option
     \<Rightarrow> ((bool, timeout_blob option) yield \<times> uth_recurse_mutex \<times> event list) option" where
  "uth_recurse_mutex_timed_lock ops ctx r_mtx abs_timeout =
     (if \<not> can_block ctx then None
      else
        let r_mtx = parlib_run_once rm_once_ctl rm_once_ctl_update
                      (uu_uth_recurse_mutex_init ops) r_mtx
        in if rm_lockholder r_mtx = Some (current_uthread ctx) then
             Some (Returned True, r_mtx\<lparr> rm_count := rm_count r_mtx + 1 \<rparr>, [])
           else
             case uth_mutex_timed_lock ops ctx (rm_mtx r_mtx) abs_timeout of
               None \<Rightarrow> None
             | Some (Yielded blob, mtx, log) \<Rightarrow> Some (Yielded blob, r_mtx\<lparr> rm_mtx := mtx \<rparr>, log)
             | Some (Returned got, mtx, log) \<Rightarrow>
                 let r_mtx = r_mtx\<lparr> rm_mtx := mtx \<rparr>
                 in if \<not> got then Some (Returned False, r_mtx, log)
                    else
                      let r_mtx = r_mtx\<lparr> rm_lockholder := Some (current_uthread ctx) \<rparr>;
                          r_mtx = r_mtx\<lparr> rm_count := 1 \<rparr>
                      in Some (Returned True, r_mtx, log))"

text \<open>
  After the yield inside \<^verbatim>\<open>uth_mutex_timed_lock\<close>: \<open>r_mtx\<close> is the recursive mutex as
  it is when the thread runs again.
\<close>

definition uth_recurse_mutex_timed_lock_resume ::
  "uth_ctx \<Rightarrow> uth_recurse_mutex \<Rightarrow> timeout_blob option
     \<Rightarrow> bool \<times> uth_recurse_mutex \<times> event list" where
  "uth_recurse_mutex_timed_lock_resume ctx r_mtx blob =
     (let (got, log) = uth_mutex_timed_lock_resume blob
      in if \<not> got then (False, r_mtx, log)
         else
           let r_mtx = r_mtx\<lparr> rm_lockholder := Some (current_uthread ctx) \<rparr>;
               r_mtx = r_mtx\<lparr> rm_count := 1 \<rparr>
           in (True, r_mtx, log))"

definition uth_recurse_mutex_lock ::
  "sched_ops \<Rightarrow> uth_ctx \<Rightarrow> uth_recurse_mutex
     \<Rightarrow> ((bool, timeout_blob option) yield \<times> uth_recurse_mutex \<times> event list) option" where
  "uth_recurse_mutex_lock ops ctx r_mtx = uth_recurse_mutex_timed_lock ops ctx r_mtx None"

definition uth_recurse_mutex_trylock ::
  "sched_ops \<Rightarrow> uth_ctx \<Rightarrow> uth_recurse_mutex
     \<Rightarrow> (bool \<times> uth_recurse_mutex \<times> event list) option" where
  "uth_recurse_mutex_trylock ops ctx r_mtx =
     (if \<not> can_block ctx then None
      else
        let r_mtx = parlib_run_once rm_once_ctl rm_once_ctl_update
                      (uu_uth_recurse_mutex_init ops) r_mtx
        in if rm_lockholder r_mtx = Some (current_uthread ctx) then
             Some (True, r_mtx\<lparr> rm_count := rm_count r_mtx + 1 \<rparr>, [])
           else
             case uth_mutex_trylock ops ctx (rm_mtx r_mtx) of
               None \<Rightarrow> None
             | Some (ret, mtx, log) \<Rightarrow>
                 let r_mtx = r_mtx\<lparr> rm_mtx := mtx \<rparr>;
                     r_mtx = (if ret
                              then r_mtx\<lparr> rm_lockholder := Some (current_uthread ctx),
                                          rm_count := 1 \<rparr>
                              else r_mtx)
                 in Some (ret, r_mtx, log))"

definition uth_recurse_mutex_unlock ::
  "sched_ops \<Rightarrow> uth_recurse_mutex \<Rightarrow> (uth_recurse_mutex \<times> event list) option" where
  "uth_recurse_mutex_unlock ops r_mtx =
     (let r_mtx = r_mtx\<lparr> rm_count := rm_count r_mtx - 1 \<rparr>
      in if rm_count r_mtx = 0 then
           let r_mtx = r_mtx\<lparr> rm_lockholder := None \<rparr>
           in case uth_mutex_unlock ops (rm_mtx r_mtx) of
                None \<Rightarrow> None
              | Some (mtx, log) \<Rightarrow> Some (r_mtx\<lparr> rm_mtx := mtx \<rparr>, log)
         else Some (r_mtx, []))"

section \<open>Condition variables\<close>

record uth_cond_var =
  cv_lock :: bool
  cv_sync_obj :: uth_sync_t
  cv_once_ctl :: bool

definition uu_uth_cond_var_init :: "sched_ops \<Rightarrow> uth_cond_var \<Rightarrow> uth_cond_var" where
  "uu_uth_cond_var_init ops cv =
     cv\<lparr> cv_lock := spin_pdr_init, cv_sync_obj := uu_uth_sync_init ops \<rparr>"

definition uth_cond_var_init :: "sched_ops \<Rightarrow> uth_cond_var \<Rightarrow> uth_cond_var" where
  "uth_cond_var_init ops cv =
     parlib_set_ran_once cv_once_ctl_update (uu_uth_cond_var_init ops cv)"

definition uu_cv_wait_cb ::
  "sched_ops \<Rightarrow> uthread \<Rightarrow> uth_cond_var \<Rightarrow> uth_semaphore
     \<Rightarrow> (uth_cond_var \<times> uth_semaphore \<times> event list) option" where
  "uu_cv_wait_cb ops uth' cv mtx =
     (let log = [Has_blocked uth'];
          cv = cv\<lparr> cv_sync_obj := uu_uth_sync_enqueue ops uth' (cv_sync_obj cv) \<rparr>;
          cv = cv\<lparr> cv_lock := spin_pdr_unlock (cv_lock cv) \<rparr>;
          log = log @ [Spin_unlock Cv_lock]
      in case uth_mutex_unlock ops mtx of
           None \<Rightarrow> None
         | Some (mtx, mtx_log) \<Rightarrow> Some (cv, mtx, log @ mtx_log))"

text \<open>
  \<^verbatim>\<open>uth_cond_var_timed_wait\<close> up to the end of the yield callback. It always yields; the
  frame keeps the timeout blob.
\<close>

definition uth_cond_var_timed_wait ::
  "sched_ops \<Rightarrow> uth_ctx \<Rightarrow> uth_cond_var \<Rightarrow> uth_semaphore \<Rightarrow> timespec option
     \<Rightarrow> ((bool, timeout_blob option) yield \<times> uth_cond_var \<times> uth_semaphore \<times> event list) option"
  where
  "uth_cond_var_timed_wait ops ctx cv mtx abs_timeout =
     (if \<not> can_block ctx then None
      else
        let cv = parlib_run_once cv_once_ctl cv_once_ctl_update (uu_uth_cond_var_init ops) cv
        in case spin_pdr_lock (cv_lock cv) of
             None \<Rightarrow> None
           | Some l \<Rightarrow>
               let cv = cv\<lparr> cv_lock := l \<rparr>;
                   log = [Spin_lock Cv_lock];
                   blob = (case abs_timeout of
                             None \<Rightarrow> None
                           | Some ts \<Rightarrow> Some (set_timeout_blob ctx Cv_lock));
                   log = (case abs_timeout of
                            None \<Rightarrow> log
                          | Some ts \<Rightarrow> log @ set_timeout_alarm (set_timeout_blob ctx Cv_lock) ts);
                   log = log @ [Yield (current_uthread ctx)]
               in (case uu_cv_wait_cb ops (current_uthread ctx) cv mtx of
                     None \<Rightarrow> None
                   | Some (cv, mtx, cb_log) \<Rightarrow> Some (Yielded blob, cv, mtx, log @ cb_log)))"

text \<open>
  The call above has two locked regions, and other vcores can run between them: first,
  under the spinlock of the condition variable, everything up to the
  \<^verbatim>\<open>spin_pdr_unlock(&cv->lock)\<close> of the callback; then \<^verbatim>\<open>uth_mutex_unlock(mtx)\<close>, which
  takes the spinlock of the mutex. The first region on its own:
\<close>

definition uu_cv_wait_cb_enqueue ::
  "sched_ops \<Rightarrow> uthread \<Rightarrow> uth_cond_var \<Rightarrow> uth_cond_var \<times> event list" where
  "uu_cv_wait_cb_enqueue ops uth' cv =
     (let log = [Has_blocked uth'];
          cv = cv\<lparr> cv_sync_obj := uu_uth_sync_enqueue ops uth' (cv_sync_obj cv) \<rparr>;
          cv = cv\<lparr> cv_lock := spin_pdr_unlock (cv_lock cv) \<rparr>;
          log = log @ [Spin_unlock Cv_lock]
      in (cv, log))"

definition uth_cond_var_timed_wait_enqueue ::
  "sched_ops \<Rightarrow> uth_ctx \<Rightarrow> uth_cond_var \<Rightarrow> timespec option
     \<Rightarrow> (timeout_blob option \<times> uth_cond_var \<times> event list) option" where
  "uth_cond_var_timed_wait_enqueue ops ctx cv abs_timeout =
     (if \<not> can_block ctx then None
      else
        let cv = parlib_run_once cv_once_ctl cv_once_ctl_update (uu_uth_cond_var_init ops) cv
        in case spin_pdr_lock (cv_lock cv) of
             None \<Rightarrow> None
           | Some l \<Rightarrow>
               let cv = cv\<lparr> cv_lock := l \<rparr>;
                   log = [Spin_lock Cv_lock];
                   blob = (case abs_timeout of
                             None \<Rightarrow> None
                           | Some ts \<Rightarrow> Some (set_timeout_blob ctx Cv_lock));
                   log = (case abs_timeout of
                            None \<Rightarrow> log
                          | Some ts \<Rightarrow> log @ set_timeout_alarm (set_timeout_blob ctx Cv_lock) ts);
                   log = log @ [Yield (current_uthread ctx)];
                   (cv, cb_log) = uu_cv_wait_cb_enqueue ops (current_uthread ctx) cv
               in Some (blob, cv, log @ cb_log))"

text \<open>
  After the yield of \<^verbatim>\<open>uth_cond_var_timed_wait\<close>: unset the alarm, compute \<open>ret\<close>, and
  call \<^verbatim>\<open>uth_mutex_lock(mtx)\<close>. That call may yield in turn; then the frame keeps
  \<open>ret\<close>, and the function returns it once the thread runs again
  (\<open>uth_cond_var_timed_wait_return\<close>).
\<close>

definition uth_cond_var_timed_wait_resume ::
  "sched_ops \<Rightarrow> uth_ctx \<Rightarrow> uth_semaphore \<Rightarrow> timeout_blob option
     \<Rightarrow> ((bool, bool) yield \<times> uth_semaphore \<times> event list) option" where
  "uth_cond_var_timed_wait_resume ops ctx mtx blob =
     (let ret = True;
          log = (case blob of Some b \<Rightarrow> [Unset_alarm (uth b)] | None \<Rightarrow> []);
          ret = (case blob of Some b \<Rightarrow> (if timed_out b then False else True) | None \<Rightarrow> ret)
      in case uth_mutex_lock ops ctx mtx of
           None \<Rightarrow> None
         | Some (Returned _, mtx, mtx_log) \<Rightarrow> Some (Returned ret, mtx, log @ mtx_log)
         | Some (Yielded _, mtx, mtx_log) \<Rightarrow> Some (Yielded ret, mtx, log @ mtx_log))"

definition uth_cond_var_timed_wait_return :: "bool \<Rightarrow> bool" where
  "uth_cond_var_timed_wait_return ret = ret"

definition uth_cond_var_signal ::
  "sched_ops \<Rightarrow> uth_cond_var \<Rightarrow> (uth_cond_var \<times> event list) option" where
  "uth_cond_var_signal ops cv =
     (let cv = parlib_run_once cv_once_ctl cv_once_ctl_update (uu_uth_cond_var_init ops) cv
      in case spin_pdr_lock (cv_lock cv) of
           None \<Rightarrow> None
         | Some l \<Rightarrow>
             let cv = cv\<lparr> cv_lock := l \<rparr>;
                 log = [Spin_lock Cv_lock];
                 (uth', q) = uu_uth_sync_get_next ops (cv_sync_obj cv);
                 cv = cv\<lparr> cv_sync_obj := q \<rparr>;
                 cv = cv\<lparr> cv_lock := spin_pdr_unlock (cv_lock cv) \<rparr>;
                 log = log @ [Spin_unlock Cv_lock];
                 log = (case uth' of Some t \<Rightarrow> log @ [Runnable t] | None \<Rightarrow> log)
             in Some (cv, log))"

text \<open>
  In \<^verbatim>\<open>uth_cond_var_broadcast\<close> the local queue \<open>restartees\<close> is gone when the function
  returns; the result is the condition variable and the events.
\<close>

definition uth_cond_var_broadcast ::
  "sched_ops \<Rightarrow> uth_cond_var \<Rightarrow> (uth_cond_var \<times> event list) option" where
  "uth_cond_var_broadcast ops cv =
     (let cv = parlib_run_once cv_once_ctl cv_once_ctl_update (uu_uth_cond_var_init ops) cv
      in case spin_pdr_lock (cv_lock cv) of
           None \<Rightarrow> None
         | Some l \<Rightarrow>
             let cv = cv\<lparr> cv_lock := l \<rparr>;
                 log = [Spin_lock Cv_lock]
             in if uu_uth_sync_is_empty ops (cv_sync_obj cv) then
                  let cv = cv\<lparr> cv_lock := spin_pdr_unlock (cv_lock cv) \<rparr>
                  in Some (cv, log @ [Spin_unlock Cv_lock])
                else
                  let restartees = uu_uth_sync_init ops;
                      (restartees, q) = uu_uth_sync_swap ops restartees (cv_sync_obj cv);
                      cv = cv\<lparr> cv_sync_obj := q \<rparr>;
                      cv = cv\<lparr> cv_lock := spin_pdr_unlock (cv_lock cv) \<rparr>;
                      log = log @ [Spin_unlock Cv_lock]
                  in (case uu_uth_sync_wake_all ops restartees of
                        None \<Rightarrow> None
                      | Some (_, wake_log) \<Rightarrow> Some (cv, log @ wake_log)))"

section \<open>Reader-writer sleeping locks\<close>

record uth_rwlock =
  rw_lock :: bool
  nr_readers :: "32 word"
  has_writer :: bool
  readers :: uth_sync_t
  writers :: uth_sync_t
  rw_once_ctl :: bool

definition uu_uth_rwlock_init :: "sched_ops \<Rightarrow> uth_rwlock \<Rightarrow> uth_rwlock" where
  "uu_uth_rwlock_init ops rwl =
     rwl\<lparr> rw_lock := spin_pdr_init, nr_readers := 0, has_writer := False,
          readers := uu_uth_sync_init ops, writers := uu_uth_sync_init ops \<rparr>"

definition uth_rwlock_init :: "sched_ops \<Rightarrow> uth_rwlock \<Rightarrow> uth_rwlock" where
  "uth_rwlock_init ops rwl =
     parlib_set_ran_once rw_once_ctl_update (uu_uth_rwlock_init ops rwl)"

definition uu_rwlock_rd_cb ::
  "sched_ops \<Rightarrow> uthread \<Rightarrow> uth_rwlock \<Rightarrow> uth_rwlock \<times> event list" where
  "uu_rwlock_rd_cb ops uth' rwl =
     (let log = [Has_blocked uth'];
          rwl = rwl\<lparr> readers := uu_uth_sync_enqueue ops uth' (readers rwl) \<rparr>;
          rwl = rwl\<lparr> rw_lock := spin_pdr_unlock (rw_lock rwl) \<rparr>
      in (rwl, log @ [Spin_unlock Rw_lock]))"

definition uth_rwlock_rdlock ::
  "sched_ops \<Rightarrow> uth_ctx \<Rightarrow> uth_rwlock
     \<Rightarrow> ((unit, unit) yield \<times> uth_rwlock \<times> event list) option" where
  "uth_rwlock_rdlock ops ctx rwl =
     (if \<not> can_block ctx then None
      else
        let rwl = parlib_run_once rw_once_ctl rw_once_ctl_update (uu_uth_rwlock_init ops) rwl
        in case spin_pdr_lock (rw_lock rwl) of
             None \<Rightarrow> None
           | Some l \<Rightarrow>
               let rwl = rwl\<lparr> rw_lock := l \<rparr>;
                   log = [Spin_lock Rw_lock]
               in if \<not> has_writer rwl then
                    let rwl = rwl\<lparr> nr_readers := nr_readers rwl + 1 \<rparr>;
                        rwl = rwl\<lparr> rw_lock := spin_pdr_unlock (rw_lock rwl) \<rparr>
                    in Some (Returned (), rwl, log @ [Spin_unlock Rw_lock])
                  else
                    let log = log @ [Yield (current_uthread ctx)];
                        (rwl, cb_log) = uu_rwlock_rd_cb ops (current_uthread ctx) rwl
                    in Some (Yielded (), rwl, log @ cb_log))"

definition uth_rwlock_try_rdlock ::
  "sched_ops \<Rightarrow> uth_ctx \<Rightarrow> uth_rwlock \<Rightarrow> (bool \<times> uth_rwlock \<times> event list) option" where
  "uth_rwlock_try_rdlock ops ctx rwl =
     (let ret = False in
      if \<not> can_block ctx then None
      else
        let rwl = parlib_run_once rw_once_ctl rw_once_ctl_update (uu_uth_rwlock_init ops) rwl
        in case spin_pdr_lock (rw_lock rwl) of
             None \<Rightarrow> None
           | Some l \<Rightarrow>
               let rwl = rwl\<lparr> rw_lock := l \<rparr>;
                   log = [Spin_lock Rw_lock];
                   (ret, rwl) = (if \<not> has_writer rwl
                                 then (True, rwl\<lparr> nr_readers := nr_readers rwl + 1 \<rparr>)
                                 else (ret, rwl));
                   rwl = rwl\<lparr> rw_lock := spin_pdr_unlock (rw_lock rwl) \<rparr>
               in Some (ret, rwl, log @ [Spin_unlock Rw_lock]))"

definition uu_rwlock_wr_cb ::
  "sched_ops \<Rightarrow> uthread \<Rightarrow> uth_rwlock \<Rightarrow> uth_rwlock \<times> event list" where
  "uu_rwlock_wr_cb ops uth' rwl =
     (let log = [Has_blocked uth'];
          rwl = rwl\<lparr> writers := uu_uth_sync_enqueue ops uth' (writers rwl) \<rparr>;
          rwl = rwl\<lparr> rw_lock := spin_pdr_unlock (rw_lock rwl) \<rparr>
      in (rwl, log @ [Spin_unlock Rw_lock]))"

definition uth_rwlock_wrlock ::
  "sched_ops \<Rightarrow> uth_ctx \<Rightarrow> uth_rwlock
     \<Rightarrow> ((unit, unit) yield \<times> uth_rwlock \<times> event list) option" where
  "uth_rwlock_wrlock ops ctx rwl =
     (if \<not> can_block ctx then None
      else
        let rwl = parlib_run_once rw_once_ctl rw_once_ctl_update (uu_uth_rwlock_init ops) rwl
        in case spin_pdr_lock (rw_lock rwl) of
             None \<Rightarrow> None
           | Some l \<Rightarrow>
               let rwl = rwl\<lparr> rw_lock := l \<rparr>;
                   log = [Spin_lock Rw_lock]
               in if \<not> has_writer rwl \<and> \<not> (nr_readers rwl \<noteq> 0) then
                    let rwl = rwl\<lparr> has_writer := True \<rparr>;
                        rwl = rwl\<lparr> rw_lock := spin_pdr_unlock (rw_lock rwl) \<rparr>
                    in Some (Returned (), rwl, log @ [Spin_unlock Rw_lock])
                  else
                    let log = log @ [Yield (current_uthread ctx)];
                        (rwl, cb_log) = uu_rwlock_wr_cb ops (current_uthread ctx) rwl
                    in Some (Yielded (), rwl, log @ cb_log))"

definition uth_rwlock_try_wrlock ::
  "sched_ops \<Rightarrow> uth_ctx \<Rightarrow> uth_rwlock \<Rightarrow> (bool \<times> uth_rwlock \<times> event list) option" where
  "uth_rwlock_try_wrlock ops ctx rwl =
     (let ret = False in
      if \<not> can_block ctx then None
      else
        let rwl = parlib_run_once rw_once_ctl rw_once_ctl_update (uu_uth_rwlock_init ops) rwl
        in case spin_pdr_lock (rw_lock rwl) of
             None \<Rightarrow> None
           | Some l \<Rightarrow>
               let rwl = rwl\<lparr> rw_lock := l \<rparr>;
                   log = [Spin_lock Rw_lock];
                   (ret, rwl) = (if \<not> has_writer rwl \<and> \<not> (nr_readers rwl \<noteq> 0)
                                 then (True, rwl\<lparr> has_writer := True \<rparr>)
                                 else (ret, rwl));
                   rwl = rwl\<lparr> rw_lock := spin_pdr_unlock (rw_lock rwl) \<rparr>
               in Some (ret, rwl, log @ [Spin_unlock Rw_lock]))"

text \<open>
  The loop of \<^verbatim>\<open>__rw_unlock_writer\<close> that moves every waiting reader to \<open>restartees\<close>
  (a \<^verbatim>\<open>struct uth_tailq\<close>, always a plain list) and counts it in \<open>nr_readers\<close>.
\<close>

partial_function (option) rw_drain_readers ::
  "sched_ops \<Rightarrow> uth_rwlock \<Rightarrow> uthread list \<Rightarrow> (uth_rwlock \<times> uthread list) option" where
  "rw_drain_readers ops rwl restartees =
     (case uu_uth_sync_get_next ops (readers rwl) of
        (None, q) \<Rightarrow> Some (rwl\<lparr> readers := q \<rparr>, restartees)
      | (Some uth', q) \<Rightarrow>
          rw_drain_readers ops
            (rwl\<lparr> readers := q, nr_readers := nr_readers rwl + 1 \<rparr>) (restartees @ [uth']))"

declare rw_drain_readers.simps [code]

definition uu_rw_unlock_writer ::
  "sched_ops \<Rightarrow> uth_rwlock \<Rightarrow> uthread list \<Rightarrow> (uth_rwlock \<times> uthread list) option" where
  "uu_rw_unlock_writer ops rwl restartees =
     (let (uth', q) = uu_uth_sync_get_next ops (writers rwl);
          rwl = rwl\<lparr> writers := q \<rparr>
      in case uth' of
           Some t \<Rightarrow> Some (rwl, restartees @ [t])
         | None \<Rightarrow>
             let rwl = rwl\<lparr> has_writer := False \<rparr>
             in rw_drain_readers ops rwl restartees)"

definition uu_rw_unlock_reader ::
  "sched_ops \<Rightarrow> uth_rwlock \<Rightarrow> uthread list \<Rightarrow> uth_rwlock \<times> uthread list" where
  "uu_rw_unlock_reader ops rwl restartees =
     (let rwl = rwl\<lparr> nr_readers := nr_readers rwl - 1 \<rparr>
      in if \<not> (nr_readers rwl \<noteq> 0) then
           let (uth', q) = uu_uth_sync_get_next ops (writers rwl);
               rwl = rwl\<lparr> writers := q \<rparr>
           in case uth' of
                Some t \<Rightarrow> (rwl\<lparr> has_writer := True \<rparr>, restartees @ [t])
              | None \<Rightarrow> (rwl, restartees)
         else (rwl, restartees))"

definition uth_rwlock_unlock ::
  "sched_ops \<Rightarrow> uth_rwlock \<Rightarrow> (uth_rwlock \<times> event list) option" where
  "uth_rwlock_unlock ops rwl =
     (let restartees = [] in
      case spin_pdr_lock (rw_lock rwl) of
        None \<Rightarrow> None
      | Some l \<Rightarrow>
          let rwl = rwl\<lparr> rw_lock := l \<rparr>;
              log = [Spin_lock Rw_lock]
          in (case (if has_writer rwl then uu_rw_unlock_writer ops rwl restartees
                    else Some (uu_rw_unlock_reader ops rwl restartees)) of
                None \<Rightarrow> None
              | Some (rwl, restartees) \<Rightarrow>
                  let rwl = rwl\<lparr> rw_lock := spin_pdr_unlock (rw_lock rwl) \<rparr>;
                      log = log @ [Spin_unlock Rw_lock]
                  in Some (rwl, log @ map Runnable restartees)))"

section \<open>Sequences of calls\<close>

text \<open>
  A spinlock guards every change of a primitive, so the calls of several threads take
  effect one whole locked region after the other, and a state between two of them is a
  quiescent point. A sequence of calls is run from left to right; a thread that calls is in
  a context that may block.
\<close>

definition thread_ctx :: "uthread \<Rightarrow> uth_ctx" where
  "thread_ctx t = \<lparr> current_uthread = t, can_block = True \<rparr>"

text \<open>
  Modelled from the spec: static initialisation of a primitive, "zero-filled + once-control
  unset" (the initialiser macros are in a header); a semaphore's count is given.
\<close>

definition uth_semaphore_static :: "32 word \<Rightarrow> uth_semaphore" where
  "uth_semaphore_static count =
     \<lparr> sem_lock = False, sem_count = count, sem_sync_obj = [], sem_once_ctl = False \<rparr>"

definition uth_rwlock_static :: uth_rwlock where
  "uth_rwlock_static =
     \<lparr> rw_lock = False, nr_readers = 0, has_writer = False, readers = [], writers = [],
       rw_once_ctl = False \<rparr>"

subsection \<open>Calls on a semaphore\<close>

text \<open>
  \<open>Alarm t\<close> is the alarm of a timed down of thread \<open>t\<close> going off: the handler runs on
  the blob that \<^verbatim>\<open>set_timeout_blob\<close> made for \<open>t\<close>. The code after a yield does not touch
  the semaphore and is no step.
\<close>

datatype sem_call = Down uthread | Timed_down uthread timespec | Trydown uthread | Up
  | Alarm uthread

fun sem_step :: "sched_ops \<Rightarrow> uth_semaphore \<Rightarrow> sem_call \<Rightarrow> uth_semaphore option" where
  "sem_step ops sem (Down t) =
     (case uth_semaphore_down ops (thread_ctx t) sem of
        None \<Rightarrow> None | Some (_, sem', _) \<Rightarrow> Some sem')"
| "sem_step ops sem (Timed_down t ts) =
     (case uth_semaphore_timed_down ops (thread_ctx t) sem (Some ts) of
        None \<Rightarrow> None | Some (_, sem', _) \<Rightarrow> Some sem')"
| "sem_step ops sem (Trydown t) =
     (case uth_semaphore_trydown ops (thread_ctx t) sem of
        None \<Rightarrow> None | Some (_, sem', _) \<Rightarrow> Some sem')"
| "sem_step ops sem Up =
     (case uth_semaphore_up ops sem of
        None \<Rightarrow> None | Some (sem', _) \<Rightarrow> Some sem')"
| "sem_step ops sem (Alarm t) =
     (case timeout_handler ops (set_timeout_blob (thread_ctx t) Sem_lock)
             (sem_lock sem) (sem_sync_obj sem) of
        None \<Rightarrow> None
      | Some (_, l, q, _) \<Rightarrow> Some (sem\<lparr> sem_lock := l, sem_sync_obj := q \<rparr>))"

fun sem_run :: "sched_ops \<Rightarrow> uth_semaphore \<Rightarrow> sem_call list \<Rightarrow> uth_semaphore option" where
  "sem_run ops sem [] = Some sem"
| "sem_run ops sem (c # cs) =
     (case sem_step ops sem c of None \<Rightarrow> None | Some sem' \<Rightarrow> sem_run ops sem' cs)"

definition sem_inv :: "uth_semaphore \<Rightarrow> bool" where
  "sem_inv sem = (0 \<le> sem_count sem \<and> (sem_count sem > 0 \<longrightarrow> sem_sync_obj sem = []))"

text \<open>At a quiescent point, moreover, nobody holds the spinlock.\<close>

definition sem_ok :: "uth_semaphore \<Rightarrow> bool" where
  "sem_ok sem = (\<not> sem_lock sem \<and> sem_inv sem)"

subsection \<open>Calls on a reader-writer lock\<close>

datatype rw_call = Rdlock uthread | Try_rdlock uthread | Wrlock uthread | Try_wrlock uthread
  | Unlock

fun rw_step :: "sched_ops \<Rightarrow> uth_rwlock \<Rightarrow> rw_call \<Rightarrow> uth_rwlock option" where
  "rw_step ops rwl (Rdlock t) =
     (case uth_rwlock_rdlock ops (thread_ctx t) rwl of
        None \<Rightarrow> None | Some (_, rwl', _) \<Rightarrow> Some rwl')"
| "rw_step ops rwl (Try_rdlock t) =
     (case uth_rwlock_try_rdlock ops (thread_ctx t) rwl of
        None \<Rightarrow> None | Some (_, rwl', _) \<Rightarrow> Some rwl')"
| "rw_step ops rwl (Wrlock t) =
     (case uth_rwlock_wrlock ops (thread_ctx t) rwl of
        None \<Rightarrow> None | Some (_, rwl', _) \<Rightarrow> Some rwl')"
| "rw_step ops rwl (Try_wrlock t) =
     (case uth_rwlock_try_wrlock ops (thread_ctx t) rwl of
        None \<Rightarrow> None | Some (_, rwl', _) \<Rightarrow> Some rwl')"
| "rw_step ops rwl Unlock =
     (case uth_rwlock_unlock ops rwl of
        None \<Rightarrow> None | Some (rwl', _) \<Rightarrow> Some rwl')"

fun rw_run :: "sched_ops \<Rightarrow> uth_rwlock \<Rightarrow> rw_call list \<Rightarrow> uth_rwlock option" where
  "rw_run ops rwl [] = Some rwl"
| "rw_run ops rwl (c # cs) =
     (case rw_step ops rwl c of None \<Rightarrow> None | Some rwl' \<Rightarrow> rw_run ops rwl' cs)"

definition rw_inv :: "uth_rwlock \<Rightarrow> bool" where
  "rw_inv rwl =
     ((has_writer rwl \<longrightarrow> nr_readers rwl = 0) \<and> (has_writer rwl = False \<longrightarrow> readers rwl = []))"

definition rw_ok :: "uth_rwlock \<Rightarrow> bool" where
  "rw_ok rwl = (\<not> rw_lock rwl \<and> rw_inv rwl)"

subsection \<open>A waiter on a condition variable and what happens around it\<close>

text \<open>
  The life of one timed wait of thread \<open>me\<close>, who holds the mutex when it calls. The wait
  goes through these phases: asleep on the condition variable; made runnable but not yet
  run; asleep inside \<^verbatim>\<open>uth_mutex_lock\<close> (the frame keeps \<open>ret\<close>); made runnable by the
  hand-off of the mutex but not yet run; returned with \<open>ret\<close>.
\<close>

datatype wait_phase = Cv_asleep | Cv_woken | Mtx_asleep bool | Mtx_woken bool
  | Returned_wait bool

text \<open>
  The steps. \<open>Cb_unlock\<close> is the second locked region of the waiter's callback, its
  \<^verbatim>\<open>uth_mutex_unlock(mtx)\<close>; it runs once, at any time after the first region. \<open>Me_runs\<close>
  is the scheduler running \<open>me\<close> again. Around the waiter, others signal and broadcast,
  alarms go off, and other threads use the mutex and the condition variable: \<open>Other_lock t\<close>
  is a call of \<^verbatim>\<open>uth_mutex_lock\<close>, \<open>Other_unlock t\<close> a call of \<^verbatim>\<open>uth_mutex_unlock\<close> by a
  thread that holds the mutex (also the unlock in the callback of its own wait), and
  \<open>Other_wait t\<close> the first locked region of a wait of a thread that holds the mutex.
\<close>

datatype cv_act = Signal | Broadcast | Alarm_fires | Cb_unlock | Me_runs
  | Other_wait uthread "timespec option" | Other_alarm uthread | Other_lock uthread
  | Other_unlock uthread

text \<open>
  The state holds the condition variable, the mutex, the waiter's timeout blob, whether
  its alarm is still armed, whether the unlock of its callback is still to come, its
  phase, and the steps that made it runnable, in order. \<open>sys_holders\<close> is book-keeping
  that the code does not have: the threads whose lock of the mutex is complete (by the
  fast path, or by being popped and made runnable by an unlock) and who have not unlocked
  since.

  Modelled from the spec: the alarm is "a one-shot absolute alarm", and after
  \<^verbatim>\<open>unset_alarm\<close> the handler "has either completed or will never run"; the scheduler runs
  a thread again only after it has been made runnable; unlocking a mutex that the caller
  does not hold, and waiting without holding the mutex, are programming errors and no
  steps.
\<close>

record cv_sys =
  sys_cv :: uth_cond_var
  sys_mtx :: uth_semaphore
  sys_blob :: "timeout_blob option"
  sys_armed :: bool
  sys_cb_pending :: bool
  sys_holders :: "uthread list"
  sys_phase :: wait_phase
  sys_wakers :: "cv_act list"

fun act_thread :: "cv_act \<Rightarrow> uthread option" where
  "act_thread (Other_wait t _) = Some t"
| "act_thread (Other_alarm t) = Some t"
| "act_thread (Other_lock t) = Some t"
| "act_thread (Other_unlock t) = Some t"
| "act_thread _ = None"

fun cv_waker :: "cv_act \<Rightarrow> bool" where
  "cv_waker Signal = True"
| "cv_waker Broadcast = True"
| "cv_waker Alarm_fires = True"
| "cv_waker _ = False"

fun is_unlock :: "cv_act \<Rightarrow> bool" where
  "is_unlock Cb_unlock = True"
| "is_unlock (Other_unlock _) = True"
| "is_unlock _ = False"

text \<open>The threads that a call made runnable, in order.\<close>

fun woken :: "event list \<Rightarrow> uthread list" where
  "woken [] = []"
| "woken (Runnable t # log) = t # woken log"
| "woken (_ # log) = woken log"

text \<open>A step that makes \<open>me\<close> runnable is recorded, and a sleeping \<open>me\<close> becomes ready.\<close>

definition note_wake :: "uthread \<Rightarrow> cv_act \<Rightarrow> event list \<Rightarrow> cv_sys \<Rightarrow> cv_sys" where
  "note_wake me act log sys =
     (if Runnable me \<in> set log
      then sys\<lparr> sys_wakers := sys_wakers sys @ [act],
                sys_phase := (case sys_phase sys of
                                Cv_asleep \<Rightarrow> Cv_woken
                              | Mtx_asleep ret \<Rightarrow> Mtx_woken ret
                              | p \<Rightarrow> p) \<rparr>
      else sys)"

text \<open>
  The wait starts with its first locked region; the caller is the one holder of the
  mutex, and the unlock of the callback is still to come.
\<close>

definition cv_wait_start ::
  "sched_ops \<Rightarrow> uthread \<Rightarrow> uth_cond_var \<Rightarrow> uth_semaphore \<Rightarrow> timespec option
     \<Rightarrow> cv_sys option" where
  "cv_wait_start ops me cv mtx abs_timeout =
     (case uth_cond_var_timed_wait_enqueue ops (thread_ctx me) cv abs_timeout of
        None \<Rightarrow> None
      | Some (blob, cv', _) \<Rightarrow>
          Some \<lparr> sys_cv = cv', sys_mtx = mtx, sys_blob = blob, sys_armed = (blob \<noteq> None),
                 sys_cb_pending = True, sys_holders = [me], sys_phase = Cv_asleep,
                 sys_wakers = [] \<rparr>)"

text \<open>Thread \<open>t\<close>, a holder, calls \<^verbatim>\<open>uth_mutex_unlock\<close>; whom it pops holds the mutex.\<close>

definition mtx_unlock_step ::
  "sched_ops \<Rightarrow> uthread \<Rightarrow> cv_act \<Rightarrow> uthread \<Rightarrow> cv_sys \<Rightarrow> cv_sys option" where
  "mtx_unlock_step ops me act t sys =
     (case uth_mutex_unlock ops (sys_mtx sys) of
        None \<Rightarrow> None
      | Some (mtx', log) \<Rightarrow>
          Some (note_wake me act log
                 (sys\<lparr> sys_mtx := mtx',
                       sys_holders := remove1 t (sys_holders sys) @ woken log \<rparr>)))"

fun cv_step :: "sched_ops \<Rightarrow> uthread \<Rightarrow> cv_sys \<Rightarrow> cv_act \<Rightarrow> cv_sys option" where
  "cv_step ops me sys Signal =
     (case uth_cond_var_signal ops (sys_cv sys) of
        None \<Rightarrow> None
      | Some (cv', log) \<Rightarrow> Some (note_wake me Signal log (sys\<lparr> sys_cv := cv' \<rparr>)))"
| "cv_step ops me sys Broadcast =
     (case uth_cond_var_broadcast ops (sys_cv sys) of
        None \<Rightarrow> None
      | Some (cv', log) \<Rightarrow> Some (note_wake me Broadcast log (sys\<lparr> sys_cv := cv' \<rparr>)))"
| "cv_step ops me sys Alarm_fires =
     (if \<not> sys_armed sys then Some sys
      else case sys_blob sys of
             None \<Rightarrow> Some sys
           | Some b \<Rightarrow>
               (case timeout_handler ops b (cv_lock (sys_cv sys)) (cv_sync_obj (sys_cv sys)) of
                  None \<Rightarrow> None
                | Some (b', l, q, log) \<Rightarrow>
                    Some (note_wake me Alarm_fires log
                           (sys\<lparr> sys_cv := (sys_cv sys)\<lparr> cv_lock := l, cv_sync_obj := q \<rparr>,
                                 sys_blob := Some b', sys_armed := False \<rparr>))))"
| "cv_step ops me sys Cb_unlock =
     (if \<not> sys_cb_pending sys then Some sys
      else mtx_unlock_step ops me Cb_unlock me (sys\<lparr> sys_cb_pending := False \<rparr>))"
| "cv_step ops me sys Me_runs =
     (case sys_phase sys of
        Cv_woken \<Rightarrow>
          (case uth_cond_var_timed_wait_resume ops (thread_ctx me) (sys_mtx sys) (sys_blob sys) of
             None \<Rightarrow> None
           | Some (Returned ret, mtx', _) \<Rightarrow>
               Some (sys\<lparr> sys_mtx := mtx', sys_armed := False,
                          sys_holders := sys_holders sys @ [me],
                          sys_phase := Returned_wait ret \<rparr>)
           | Some (Yielded ret, mtx', _) \<Rightarrow>
               Some (sys\<lparr> sys_mtx := mtx', sys_armed := False,
                          sys_phase := Mtx_asleep ret \<rparr>))
      | Mtx_woken ret \<Rightarrow>
          Some (sys\<lparr> sys_phase := Returned_wait (uth_cond_var_timed_wait_return ret) \<rparr>)
      | _ \<Rightarrow> Some sys)"
| "cv_step ops me sys (Other_wait t abs_timeout) =
     (if t \<notin> set (sys_holders sys) then Some sys
      else case uth_cond_var_timed_wait_enqueue ops (thread_ctx t) (sys_cv sys) abs_timeout of
             None \<Rightarrow> None
           | Some (_, cv', log) \<Rightarrow>
               Some (note_wake me (Other_wait t abs_timeout) log (sys\<lparr> sys_cv := cv' \<rparr>)))"
| "cv_step ops me sys (Other_alarm t) =
     (case timeout_handler ops (set_timeout_blob (thread_ctx t) Cv_lock)
             (cv_lock (sys_cv sys)) (cv_sync_obj (sys_cv sys)) of
        None \<Rightarrow> None
      | Some (_, l, q, log) \<Rightarrow>
          Some (note_wake me (Other_alarm t) log
                 (sys\<lparr> sys_cv := (sys_cv sys)\<lparr> cv_lock := l, cv_sync_obj := q \<rparr> \<rparr>)))"
| "cv_step ops me sys (Other_lock t) =
     (case uth_mutex_lock ops (thread_ctx t) (sys_mtx sys) of
        None \<Rightarrow> None
      | Some (Returned _, mtx', log) \<Rightarrow>
          Some (note_wake me (Other_lock t) log
                 (sys\<lparr> sys_mtx := mtx', sys_holders := sys_holders sys @ [t] \<rparr>))
      | Some (Yielded _, mtx', log) \<Rightarrow>
          Some (note_wake me (Other_lock t) log (sys\<lparr> sys_mtx := mtx' \<rparr>)))"
| "cv_step ops me sys (Other_unlock t) =
     (if t \<notin> set (sys_holders sys) then Some sys
      else mtx_unlock_step ops me (Other_unlock t) t sys)"

fun cv_run :: "sched_ops \<Rightarrow> uthread \<Rightarrow> cv_sys \<Rightarrow> cv_act list \<Rightarrow> cv_sys option" where
  "cv_run ops me sys [] = Some sys"
| "cv_run ops me sys (a # as) =
     (case cv_step ops me sys a of None \<Rightarrow> None | Some sys' \<Rightarrow> cv_run ops me sys' as)"

text \<open>
  What holds of the waiter's system between any two steps. Always: the condition variable
  and the mutex are initialised and their spinlocks free; the blob, if any, is the one of
  \<open>me\<close> on the condition variable; the mutex has either no free unit and one holder, or
  one free unit and no holder; and until the callback has unlocked, \<open>me\<close> is the holder.
\<close>

definition cv_sys_base :: "uthread \<Rightarrow> cv_sys \<Rightarrow> bool" where
  "cv_sys_base me sys =
     (cv_once_ctl (sys_cv sys) \<and> \<not> cv_lock (sys_cv sys) \<and>
      sem_once_ctl (sys_mtx sys) \<and> \<not> sem_lock (sys_mtx sys) \<and>
      (case sys_blob sys of
         None \<Rightarrow> \<not> sys_armed sys
       | Some b \<Rightarrow> uth b = me \<and> lock_ptr b = Cv_lock) \<and>
      (sem_count (sys_mtx sys) = 0 \<and> length (sys_holders sys) = 1 \<or>
       sem_count (sys_mtx sys) = 1 \<and> sys_holders sys = []) \<and>
      (sys_cb_pending sys \<longrightarrow> sys_holders sys = [me]))"

text \<open>
  And by phase. Asleep on the condition variable: nothing woke \<open>me\<close>, it is in that
  queue exactly once and its blob is not marked. Woken: one step \<open>w\<close> woke it, a signal,
  a broadcast or its alarm, and its blob is marked iff \<open>w\<close> is the alarm. Asleep on the
  mutex: it is in the queue of the mutex exactly once, and \<open>ret\<close> says that \<open>w\<close> was not
  the alarm. Handed the mutex, and returned: \<open>me\<close> is the holder of the mutex.
\<close>

definition cv_phase_inv :: "uthread \<Rightarrow> cv_sys \<Rightarrow> bool" where
  "cv_phase_inv me sys =
     (case sys_phase sys of
        Cv_asleep \<Rightarrow>
          sys_wakers sys = [] \<and> count_list (cv_sync_obj (sys_cv sys)) me = 1 \<and>
          me \<notin> set (sem_sync_obj (sys_mtx sys)) \<and>
          (sys_cb_pending sys \<or> me \<notin> set (sys_holders sys)) \<and>
          (case sys_blob sys of None \<Rightarrow> True | Some b \<Rightarrow> \<not> timed_out b)
      | Cv_woken \<Rightarrow>
          me \<notin> set (cv_sync_obj (sys_cv sys)) \<and> me \<notin> set (sem_sync_obj (sys_mtx sys)) \<and>
          (sys_cb_pending sys \<or> me \<notin> set (sys_holders sys)) \<and>
          (\<exists>w. sys_wakers sys = [w] \<and> cv_waker w \<and>
               (case sys_blob sys of
                  None \<Rightarrow> w \<noteq> Alarm_fires
                | Some b \<Rightarrow> timed_out b = (w = Alarm_fires)) \<and>
               (w = Alarm_fires \<longrightarrow> \<not> sys_armed sys))
      | Mtx_asleep ret \<Rightarrow>
          me \<notin> set (cv_sync_obj (sys_cv sys)) \<and>
          count_list (sem_sync_obj (sys_mtx sys)) me = 1 \<and>
          (sys_cb_pending sys \<or> me \<notin> set (sys_holders sys)) \<and> \<not> sys_armed sys \<and>
          (sys_blob sys = None \<longrightarrow> ret) \<and>
          (\<exists>w. sys_wakers sys = [w] \<and> cv_waker w \<and> ret = (w \<noteq> Alarm_fires))
      | Mtx_woken ret \<Rightarrow>
          me \<notin> set (cv_sync_obj (sys_cv sys)) \<and> me \<notin> set (sem_sync_obj (sys_mtx sys)) \<and>
          sys_holders sys = [me] \<and> \<not> sys_cb_pending sys \<and> \<not> sys_armed sys \<and>
          (sys_blob sys = None \<longrightarrow> ret) \<and>
          (\<exists>w u. sys_wakers sys = [w, u] \<and> cv_waker w \<and> is_unlock u \<and>
                 ret = (w \<noteq> Alarm_fires))
      | Returned_wait ret \<Rightarrow>
          me \<notin> set (cv_sync_obj (sys_cv sys)) \<and> me \<notin> set (sem_sync_obj (sys_mtx sys)) \<and>
          sys_holders sys = [me] \<and> \<not> sys_cb_pending sys \<and> \<not> sys_armed sys \<and>
          (sys_blob sys = None \<longrightarrow> ret) \<and>
          (\<exists>w. (sys_wakers sys = [w] \<or> (\<exists>u. sys_wakers sys = [w, u] \<and> is_unlock u)) \<and>
               cv_waker w \<and> ret = (w \<noteq> Alarm_fires)))"

definition cv_sys_inv :: "uthread \<Rightarrow> cv_sys \<Rightarrow> bool" where
  "cv_sys_inv me sys = (cv_sys_base me sys \<and> cv_phase_inv me sys)"

subsection \<open>Calls of one thread on a recursive mutex\<close>

text \<open>
  The first lock of a thread that does not own the mutex is complete either when the call
  returns at once or, after a yield, when the code after the yield has run (on the mutex
  as it is then). The later calls of the owner never yield. A sequence of lock calls
  stops with \<open>None\<close> at a call that does not return true.
\<close>

datatype r_call = R_lock | R_timed_lock timespec | R_trylock

datatype r_first = First_call r_call | First_resumed "timeout_blob option"

fun r_call_step ::
  "sched_ops \<Rightarrow> uth_ctx \<Rightarrow> uth_recurse_mutex \<Rightarrow> r_call
     \<Rightarrow> ((bool, timeout_blob option) yield \<times> uth_recurse_mutex \<times> event list) option" where
  "r_call_step ops ctx r R_lock = uth_recurse_mutex_lock ops ctx r"
| "r_call_step ops ctx r (R_timed_lock ts) = uth_recurse_mutex_timed_lock ops ctx r (Some ts)"
| "r_call_step ops ctx r R_trylock =
     (case uth_recurse_mutex_trylock ops ctx r of
        None \<Rightarrow> None
      | Some (ret, r', log) \<Rightarrow> Some (Returned ret, r', log))"

fun r_first_lock ::
  "sched_ops \<Rightarrow> uth_ctx \<Rightarrow> uth_recurse_mutex \<Rightarrow> r_first \<Rightarrow> uth_recurse_mutex option" where
  "r_first_lock ops ctx r (First_call c) =
     (case r_call_step ops ctx r c of
        Some (Returned True, r', _) \<Rightarrow> Some r'
      | _ \<Rightarrow> None)"
| "r_first_lock ops ctx r (First_resumed blob) =
     (case uth_recurse_mutex_timed_lock_resume ctx r blob of
        (True, r', _) \<Rightarrow> Some r'
      | _ \<Rightarrow> None)"

fun r_lock_seq ::
  "sched_ops \<Rightarrow> uth_ctx \<Rightarrow> uth_recurse_mutex \<Rightarrow> r_call list \<Rightarrow> uth_recurse_mutex option" where
  "r_lock_seq ops ctx r [] = Some r"
| "r_lock_seq ops ctx r (c # cs) =
     (case r_call_step ops ctx r c of
        Some (Returned True, r', _) \<Rightarrow> r_lock_seq ops ctx r' cs
      | _ \<Rightarrow> None)"

fun r_unlock_n :: "sched_ops \<Rightarrow> uth_recurse_mutex \<Rightarrow> nat \<Rightarrow> uth_recurse_mutex option" where
  "r_unlock_n ops r 0 = Some r"
| "r_unlock_n ops r (Suc n) =
     (case uth_recurse_mutex_unlock ops r of
        None \<Rightarrow> None
      | Some (r', _) \<Rightarrow> r_unlock_n ops r' n)"

text \<open>The queue callbacks of the second-level scheduler are all NULL.\<close>

definition default_sync :: "sched_ops \<Rightarrow> bool" where
  "default_sync ops =
     (sync_init ops = None \<and> sync_enqueue ops = None \<and> sync_get_next ops = None \<and>
      sync_get_uth ops = None \<and> sync_swap ops = None \<and> sync_is_empty ops = None \<and>
      thread_bulk_runnable ops = None)"

section \<open>The default queue\<close>

lemma get_next_default:
  "sync_get_next ops = None \<Longrightarrow>
   uu_uth_sync_get_next ops q = (case q of [] \<Rightarrow> (None, []) | t # rest \<Rightarrow> (Some t, rest))"
  by (simp add: uu_uth_sync_get_next_def uth_default_sync_get_next_def)

lemma default_get_uth: "uth_default_sync_get_uth q t = (t \<in> set q, remove1 t q)"
  by (induction q) auto

lemma get_uth_default:
  "sync_get_uth ops = None \<Longrightarrow> uu_uth_sync_get_uth ops q t = (t \<in> set q, remove1 t q)"
  by (simp add: uu_uth_sync_get_uth_def default_get_uth)

lemma wake_all_loop_default:
  "sync_get_next ops = None \<Longrightarrow> wake_all_loop ops q log = Some ([], log @ map Runnable q)"
proof (induction q arbitrary: log)
  case Nil
  then show ?case by (subst wake_all_loop.simps) (simp add: get_next_default)
next
  case (Cons t q)
  then show ?case by (subst wake_all_loop.simps) (simp add: get_next_default)
qed

lemma rw_drain_readers_default:
  "sync_get_next ops = None \<Longrightarrow>
   rw_drain_readers ops rwl restartees =
     Some (rwl\<lparr> readers := [], nr_readers := nr_readers rwl + of_nat (length (readers rwl)) \<rparr>,
           restartees @ readers rwl)"
proof (induction "readers rwl" arbitrary: rwl restartees)
  case Nil
  then show ?case by (subst rw_drain_readers.simps) (simp add: get_next_default flip: Nil(1))
next
  case (Cons t q)
  have "rw_drain_readers ops rwl restartees =
        rw_drain_readers ops (rwl\<lparr> readers := q, nr_readers := nr_readers rwl + 1 \<rparr>)
          (restartees @ [t])"
    by (subst rw_drain_readers.simps) (simp add: get_next_default Cons(3) flip: Cons(2))
  also have "\<dots> =
      Some (rwl\<lparr> readers := [], nr_readers := nr_readers rwl + 1 + of_nat (length q) \<rparr>,
            (restartees @ [t]) @ q)"
    using Cons(1)[of "rwl\<lparr> readers := q, nr_readers := nr_readers rwl + 1 \<rparr>" "restartees @ [t]"]
      Cons(3)
    by simp
  finally show ?case by (simp flip: Cons(2) add: add.assoc)
qed

lemma enqueue_default:
  "sync_enqueue ops = None \<Longrightarrow> uu_uth_sync_enqueue ops t q = q @ [t]"
  by (simp add: uu_uth_sync_enqueue_def uth_default_sync_enqueue_def)

lemma sync_init_default: "sync_init ops = None \<Longrightarrow> uu_uth_sync_init ops = []"
  by (simp add: uu_uth_sync_init_def uth_default_sync_init_def)

lemma run_once_sem_unlocked:
  "\<not> sem_lock sem \<Longrightarrow>
   \<not> sem_lock (parlib_run_once sem_once_ctl sem_once_ctl_update (uu_uth_semaphore_init ops) sem)"
  by (simp add: parlib_run_once_def uu_uth_semaphore_init_def spin_pdr_init_def)

lemma run_once_sem_count:
  "sem_count (parlib_run_once sem_once_ctl sem_once_ctl_update (uu_uth_semaphore_init ops) sem)
     = sem_count sem"
  by (simp add: parlib_run_once_def uu_uth_semaphore_init_def)

section \<open>Semaphore up\<close>

text \<open>
  Claim C1. For every semaphore whose spinlock is free, \<^verbatim>\<open>uth_semaphore_up\<close> returns.
  With \<open>s0\<close> the semaphore once its once-control has run, it takes the spinlock, asks the
  wait queue for the next thread and releases the spinlock. If a thread \<open>t\<close> was popped,
  the count is the one before and \<open>t\<close> is made runnable after the release; if none was
  popped, the count is the one before plus one (in 32-bit arithmetic) and no thread is made
  runnable. Nothing else of the semaphore changes.
\<close>

theorem uth_semaphore_up_hands_off:
  assumes "\<not> sem_lock sem"
  shows "uth_semaphore_up ops sem =
     (let s0 = parlib_run_once sem_once_ctl sem_once_ctl_update (uu_uth_semaphore_init ops) sem
      in case uu_uth_sync_get_next ops (sem_sync_obj s0) of
           (Some t, q) \<Rightarrow>
             Some (s0\<lparr> sem_sync_obj := q \<rparr>,
                   [Spin_lock Sem_lock, Spin_unlock Sem_lock, Runnable t])
         | (None, q) \<Rightarrow>
             Some (s0\<lparr> sem_sync_obj := q, sem_count := sem_count sem + 1 \<rparr>,
                   [Spin_lock Sem_lock, Spin_unlock Sem_lock]))"
  using run_once_sem_unlocked[OF assms, of ops] run_once_sem_count[of ops sem]
  by (auto simp: uth_semaphore_up_def Let_def spin_pdr_lock_def spin_pdr_unlock_def
           split: prod.splits option.splits)

theorem uth_semaphore_up_hands_off_witness:
  "\<not> sem_lock \<lparr> sem_lock = False, sem_count = 0, sem_sync_obj = [3, 5], sem_once_ctl = True \<rparr> \<and>
   uth_semaphore_up no_hooks
       \<lparr> sem_lock = False, sem_count = 0, sem_sync_obj = [3, 5], sem_once_ctl = True \<rparr> =
     Some (\<lparr> sem_lock = False, sem_count = 0, sem_sync_obj = [5], sem_once_ctl = True \<rparr>,
           [Spin_lock Sem_lock, Spin_unlock Sem_lock, Runnable 3]) \<and>
   uth_semaphore_up no_hooks
       \<lparr> sem_lock = False, sem_count = 7, sem_sync_obj = [], sem_once_ctl = True \<rparr> =
     Some (\<lparr> sem_lock = False, sem_count = 8, sem_sync_obj = [], sem_once_ctl = True \<rparr>,
           [Spin_lock Sem_lock, Spin_unlock Sem_lock])"
  using uth_semaphore_up_hands_off
          [of "\<lparr> sem_lock = False, sem_count = 0, sem_sync_obj = [3, 5], sem_once_ctl = True \<rparr>"
              no_hooks]
        uth_semaphore_up_hands_off
          [of "\<lparr> sem_lock = False, sem_count = 7, sem_sync_obj = [], sem_once_ctl = True \<rparr>"
              no_hooks]
  by (simp add: parlib_run_once_def no_hooks_def uu_uth_sync_get_next_def
        uth_default_sync_get_next_def)

section \<open>Writer unlock of a reader-writer lock\<close>

text \<open>
  Claim C4. For every reader-writer lock with \<open>has_writer\<close> set and its spinlock free,
  under the default queue, \<^verbatim>\<open>uth_rwlock_unlock\<close> returns and has taken the writer path.
  If a writer waits, the head of the writer queue is popped and is the one restarted
  thread, and \<open>has_writer\<close> stays set. Otherwise \<open>has_writer\<close> is cleared, the reader queue
  is emptied, \<open>nr_readers\<close> grows by the number of readers that waited (in 32-bit
  arithmetic) and exactly those readers are restarted. Every restarted thread is made
  runnable after the spinlock is released.
\<close>

theorem uth_rwlock_unlock_writer_path:
  assumes "has_writer rwl" and "\<not> rw_lock rwl" and "sync_get_next ops = None"
  shows "uth_rwlock_unlock ops rwl =
     (case writers rwl of
        w # ws \<Rightarrow>
          Some (rwl\<lparr> writers := ws \<rparr>, [Spin_lock Rw_lock, Spin_unlock Rw_lock, Runnable w])
      | [] \<Rightarrow>
          Some (rwl\<lparr> has_writer := False, readers := [],
                     nr_readers := nr_readers rwl + of_nat (length (readers rwl)) \<rparr>,
                [Spin_lock Rw_lock, Spin_unlock Rw_lock] @ map Runnable (readers rwl)))"
  using assms
  by (auto simp: uth_rwlock_unlock_def uu_rw_unlock_writer_def Let_def spin_pdr_lock_def
        spin_pdr_unlock_def get_next_default rw_drain_readers_default split: list.splits)

theorem uth_rwlock_unlock_writer_path_witness:
  "has_writer \<lparr> rw_lock = False, nr_readers = 0, has_writer = True, readers = [4, 5],
                writers = [], rw_once_ctl = True \<rparr> \<and>
   \<not> rw_lock \<lparr> rw_lock = False, nr_readers = 0, has_writer = True, readers = [4, 5],
                writers = [], rw_once_ctl = True \<rparr> \<and>
   sync_get_next no_hooks = None \<and>
   uth_rwlock_unlock no_hooks
       \<lparr> rw_lock = False, nr_readers = 0, has_writer = True, readers = [4, 5],
         writers = [], rw_once_ctl = True \<rparr> =
     Some (\<lparr> rw_lock = False, nr_readers = 2, has_writer = False, readers = [],
             writers = [], rw_once_ctl = True \<rparr>,
           [Spin_lock Rw_lock, Spin_unlock Rw_lock, Runnable 4, Runnable 5])"
  using uth_rwlock_unlock_writer_path
          [of "\<lparr> rw_lock = False, nr_readers = 0, has_writer = True, readers = [4, 5],
                 writers = [], rw_once_ctl = True \<rparr>" no_hooks]
  by (simp add: no_hooks_def)

section \<open>Broadcast\<close>

text \<open>
  Claim C6, as stated for every condition variable, fails on one whose once-control has
  not run: the broadcast runs the initialiser and sets the once-control, so the state
  changes although the queue is empty.
\<close>

theorem uth_cond_var_broadcast_uninit_counterexample:
  "uth_cond_var_broadcast no_hooks \<lparr> cv_lock = False, cv_sync_obj = [], cv_once_ctl = False \<rparr> =
     Some (\<lparr> cv_lock = False, cv_sync_obj = [], cv_once_ctl = True \<rparr>,
           [Spin_lock Cv_lock, Spin_unlock Cv_lock]) \<and>
   \<lparr> cv_lock = False, cv_sync_obj = [], cv_once_ctl = True \<rparr> \<noteq>
   \<lparr> cv_lock = False, cv_sync_obj = [], cv_once_ctl = False \<rparr>"
  by (simp add: uth_cond_var_broadcast_def Let_def parlib_run_once_def
        uu_uth_cond_var_init_def spin_pdr_init_def spin_pdr_lock_def spin_pdr_unlock_def
        uu_uth_sync_init_def uth_default_sync_init_def uu_uth_sync_is_empty_def
        uth_default_sync_is_empty_def no_hooks_def)

text \<open>
  Claim C6, amended. For every condition variable whose once-control has run and whose
  spinlock is free, under the default queue: with an empty wait queue
  \<^verbatim>\<open>uth_cond_var_broadcast\<close> returns the condition variable as it was and makes no thread
  runnable; with a non-empty queue it leaves the queue empty and, after releasing the
  spinlock, makes runnable exactly the threads that were in the queue, in queue order.
\<close>

theorem uth_cond_var_broadcast_wakes_all:
  assumes "cv_once_ctl cv" and "\<not> cv_lock cv" and "default_sync ops"
  shows "(cv_sync_obj cv = [] \<longrightarrow>
            uth_cond_var_broadcast ops cv = Some (cv, [Spin_lock Cv_lock, Spin_unlock Cv_lock])) \<and>
         (cv_sync_obj cv \<noteq> [] \<longrightarrow>
            uth_cond_var_broadcast ops cv =
              Some (cv\<lparr> cv_sync_obj := [] \<rparr>,
                    [Spin_lock Cv_lock, Spin_unlock Cv_lock] @ map Runnable (cv_sync_obj cv)))"
  using assms
  by (auto simp: uth_cond_var_broadcast_def Let_def spin_pdr_lock_def spin_pdr_unlock_def
        parlib_run_once_def default_sync_def uu_uth_sync_is_empty_def
        uth_default_sync_is_empty_def uu_uth_sync_init_def uth_default_sync_init_def
        uu_uth_sync_swap_def uth_default_sync_swap_def uu_uth_sync_wake_all_def
        wake_all_loop_default)

theorem uth_cond_var_broadcast_wakes_all_witness:
  "cv_once_ctl \<lparr> cv_lock = False, cv_sync_obj = [2, 9], cv_once_ctl = True \<rparr> \<and>
   \<not> cv_lock \<lparr> cv_lock = False, cv_sync_obj = [2, 9], cv_once_ctl = True \<rparr> \<and>
   default_sync no_hooks \<and>
   cv_sync_obj \<lparr> cv_lock = False, cv_sync_obj = [2, 9], cv_once_ctl = True \<rparr> \<noteq> [] \<and>
   uth_cond_var_broadcast no_hooks
       \<lparr> cv_lock = False, cv_sync_obj = [2, 9], cv_once_ctl = True \<rparr> =
     Some (\<lparr> cv_lock = False, cv_sync_obj = [], cv_once_ctl = True \<rparr>,
           [Spin_lock Cv_lock, Spin_unlock Cv_lock, Runnable 2, Runnable 9]) \<and>
   cv_sync_obj \<lparr> cv_lock = False, cv_sync_obj = [], cv_once_ctl = True \<rparr> = [] \<and>
   uth_cond_var_broadcast no_hooks
       \<lparr> cv_lock = False, cv_sync_obj = [], cv_once_ctl = True \<rparr> =
     Some (\<lparr> cv_lock = False, cv_sync_obj = [], cv_once_ctl = True \<rparr>,
           [Spin_lock Cv_lock, Spin_unlock Cv_lock])"
  using uth_cond_var_broadcast_wakes_all
          [of "\<lparr> cv_lock = False, cv_sync_obj = [2, 9], cv_once_ctl = True \<rparr>" no_hooks]
        uth_cond_var_broadcast_wakes_all
          [of "\<lparr> cv_lock = False, cv_sync_obj = [], cv_once_ctl = True \<rparr>" no_hooks]
  by (simp add: default_sync_def no_hooks_def)

section \<open>The timeout alarm handler\<close>

text \<open>
  Claim C7. For every timeout blob whose spinlock is free, under the default queue, the
  alarm handler returns and does exactly this: it takes the blob's spinlock, removes the
  blob's thread from the blob's wait queue, sets \<open>timed_out\<close> iff the thread was still
  queued (the flag is left as it was otherwise), releases the spinlock, and then makes the
  thread runnable iff \<open>timed_out\<close> holds. For the blob that \<^verbatim>\<open>set_timeout_blob\<close> makes
  (flag clear), the thread is marked timed out and woken iff it was still queued: a waiter
  that a waker has popped is neither marked nor woken again.
\<close>

theorem timeout_handler_steps:
  assumes "\<not> lock" and "sync_get_uth ops = None"
  shows "timeout_handler ops blob lock sync =
           Some (blob\<lparr> timed_out := timed_out blob \<or> uth blob \<in> set sync \<rparr>, False,
                 remove1 (uth blob) sync,
                 [Spin_lock (lock_ptr blob), Spin_unlock (lock_ptr blob)] @
                 (if timed_out blob \<or> uth blob \<in> set sync then [Runnable (uth blob)] else [])) \<and>
         timeout_handler ops (set_timeout_blob ctx l) lock sync =
           Some (\<lparr> timed_out = current_uthread ctx \<in> set sync, uth = current_uthread ctx,
                   lock_ptr = l \<rparr>, False,
                 remove1 (current_uthread ctx) sync,
                 [Spin_lock l, Spin_unlock l] @
                 (if current_uthread ctx \<in> set sync then [Runnable (current_uthread ctx)] else []))"
  using assms
  by (auto simp: timeout_handler_def Let_def spin_pdr_lock_def spin_pdr_unlock_def
        get_uth_default set_timeout_blob_def)

theorem timeout_handler_steps_witness:
  "\<not> False \<and> sync_get_uth no_hooks = None \<and>
   timeout_handler no_hooks (set_timeout_blob (thread_ctx 4) Sem_lock) False [3, 4, 5] =
     Some (\<lparr> timed_out = True, uth = 4, lock_ptr = Sem_lock \<rparr>, False, [3, 5],
           [Spin_lock Sem_lock, Spin_unlock Sem_lock, Runnable 4]) \<and>
   timeout_handler no_hooks (set_timeout_blob (thread_ctx 4) Sem_lock) False [3, 5] =
     Some (\<lparr> timed_out = False, uth = 4, lock_ptr = Sem_lock \<rparr>, False, [3, 5],
           [Spin_lock Sem_lock, Spin_unlock Sem_lock])"
  using timeout_handler_steps [of False no_hooks _ "[3, 4, 5]" "thread_ctx 4" Sem_lock,
      THEN conjunct2]
    timeout_handler_steps [of False no_hooks _ "[3, 5]" "thread_ctx 4" Sem_lock,
      THEN conjunct2]
  by (simp add: no_hooks_def thread_ctx_def)

section \<open>Failed try operations\<close>

text \<open>
  Claim C9. For every initialised semaphore or reader-writer lock (its once-control has
  run): when \<^verbatim>\<open>uth_semaphore_trydown\<close>, \<^verbatim>\<open>uth_rwlock_try_rdlock\<close> or
  \<^verbatim>\<open>uth_rwlock_try_wrlock\<close> returns false, the primitive it returns is the very one it
  was given: spinlock, counts, flags, wait queues and once-control are as before.
\<close>

theorem failed_try_leaves_state:
  "(sem_once_ctl sem \<and> uth_semaphore_trydown ops ctx sem = Some (False, sem', slog)
      \<longrightarrow> sem' = sem) \<and>
   (rw_once_ctl rwl \<and> uth_rwlock_try_rdlock ops ctx rwl = Some (False, rwl', rlog)
      \<longrightarrow> rwl' = rwl) \<and>
   (rw_once_ctl rwl \<and> uth_rwlock_try_wrlock ops ctx rwl = Some (False, rwl'', wlog)
      \<longrightarrow> rwl'' = rwl)"
  by (auto simp: uth_semaphore_trydown_def uth_rwlock_try_rdlock_def uth_rwlock_try_wrlock_def
        Let_def spin_pdr_lock_def spin_pdr_unlock_def parlib_run_once_def
      split: if_splits prod.splits)

theorem failed_try_leaves_state_witness:
  "sem_once_ctl \<lparr> sem_lock = False, sem_count = 0, sem_sync_obj = [7], sem_once_ctl = True \<rparr> \<and>
   uth_semaphore_trydown no_hooks (thread_ctx 1)
       \<lparr> sem_lock = False, sem_count = 0, sem_sync_obj = [7], sem_once_ctl = True \<rparr> =
     Some (False, \<lparr> sem_lock = False, sem_count = 0, sem_sync_obj = [7], sem_once_ctl = True \<rparr>,
           [Spin_lock Sem_lock, Spin_unlock Sem_lock]) \<and>
   rw_once_ctl \<lparr> rw_lock = False, nr_readers = 0, has_writer = True, readers = [4],
                 writers = [6], rw_once_ctl = True \<rparr> \<and>
   uth_rwlock_try_rdlock no_hooks (thread_ctx 1)
       \<lparr> rw_lock = False, nr_readers = 0, has_writer = True, readers = [4],
         writers = [6], rw_once_ctl = True \<rparr> =
     Some (False, \<lparr> rw_lock = False, nr_readers = 0, has_writer = True, readers = [4],
                    writers = [6], rw_once_ctl = True \<rparr>,
           [Spin_lock Rw_lock, Spin_unlock Rw_lock]) \<and>
   uth_rwlock_try_wrlock no_hooks (thread_ctx 1)
       \<lparr> rw_lock = False, nr_readers = 0, has_writer = True, readers = [4],
         writers = [6], rw_once_ctl = True \<rparr> =
     Some (False, \<lparr> rw_lock = False, nr_readers = 0, has_writer = True, readers = [4],
                    writers = [6], rw_once_ctl = True \<rparr>,
           [Spin_lock Rw_lock, Spin_unlock Rw_lock])"
  using failed_try_leaves_state
    [of "\<lparr> sem_lock = False, sem_count = 0, sem_sync_obj = [7], sem_once_ctl = True \<rparr>"
        no_hooks "thread_ctx 1"
        "\<lparr> sem_lock = False, sem_count = 0, sem_sync_obj = [7], sem_once_ctl = True \<rparr>"
        "[Spin_lock Sem_lock, Spin_unlock Sem_lock]"
        "\<lparr> rw_lock = False, nr_readers = 0, has_writer = True, readers = [4],
                 writers = [6], rw_once_ctl = True \<rparr>"
        "\<lparr> rw_lock = False, nr_readers = 0, has_writer = True, readers = [4],
                 writers = [6], rw_once_ctl = True \<rparr>"
        "[Spin_lock Rw_lock, Spin_unlock Rw_lock]"
        "\<lparr> rw_lock = False, nr_readers = 0, has_writer = True, readers = [4],
                 writers = [6], rw_once_ctl = True \<rparr>"
        "[Spin_lock Rw_lock, Spin_unlock Rw_lock]"]
  by (simp add: uth_semaphore_trydown_def uth_rwlock_try_rdlock_def uth_rwlock_try_wrlock_def
        Let_def spin_pdr_lock_def spin_pdr_unlock_def parlib_run_once_def thread_ctx_def)

section \<open>Signal on an empty condition variable\<close>

text \<open>
  Claim C10. For every initialised condition variable with a free spinlock and an empty
  wait queue, under the default queue, \<^verbatim>\<open>uth_cond_var_signal\<close> returns the condition
  variable unchanged (spinlock, wait queue and once-control) and makes no thread runnable:
  its only effects are taking and releasing the spinlock.
\<close>

theorem uth_cond_var_signal_empty_noop:
  assumes "cv_once_ctl cv" and "\<not> cv_lock cv" and "cv_sync_obj cv = []"
    and "sync_get_next ops = None"
  shows "uth_cond_var_signal ops cv = Some (cv, [Spin_lock Cv_lock, Spin_unlock Cv_lock])"
  using assms
  by (simp add: uth_cond_var_signal_def Let_def spin_pdr_lock_def spin_pdr_unlock_def
        parlib_run_once_def get_next_default)

theorem uth_cond_var_signal_empty_noop_witness:
  "cv_once_ctl \<lparr> cv_lock = False, cv_sync_obj = [], cv_once_ctl = True \<rparr> \<and>
   \<not> cv_lock \<lparr> cv_lock = False, cv_sync_obj = [], cv_once_ctl = True \<rparr> \<and>
   cv_sync_obj \<lparr> cv_lock = False, cv_sync_obj = [], cv_once_ctl = True \<rparr> = [] \<and>
   sync_get_next no_hooks = None \<and>
   uth_cond_var_signal no_hooks \<lparr> cv_lock = False, cv_sync_obj = [], cv_once_ctl = True \<rparr> =
     Some (\<lparr> cv_lock = False, cv_sync_obj = [], cv_once_ctl = True \<rparr>,
           [Spin_lock Cv_lock, Spin_unlock Cv_lock])"
  using uth_cond_var_signal_empty_noop
    [of "\<lparr> cv_lock = False, cv_sync_obj = [], cv_once_ctl = True \<rparr>" no_hooks]
  by (simp add: no_hooks_def)

section \<open>The semaphore invariant\<close>

lemma run_once_sem_ok:
  assumes "default_sync ops" and "sem_ok sem"
  shows "sem_ok (parlib_run_once sem_once_ctl sem_once_ctl_update (uu_uth_semaphore_init ops) sem)"
  using assms
  by (auto simp: sem_ok_def sem_inv_def parlib_run_once_def uu_uth_semaphore_init_def
        spin_pdr_init_def default_sync_def sync_init_default)

lemma timed_down_sem_ok:
  assumes "default_sync ops" and "sem_ok sem" and "can_block ctx"
  shows "\<exists>r sem' log. uth_semaphore_timed_down ops ctx sem abs_timeout = Some (r, sem', log) \<and>
           sem_ok sem'"
  using run_once_sem_ok[OF assms(1,2)] assms(1,3)
  by (auto simp: uth_semaphore_timed_down_def Let_def sem_ok_def sem_inv_def spin_pdr_lock_def
        spin_pdr_unlock_def uu_semaphore_cb_def default_sync_def enqueue_default
        split: option.splits prod.splits)

lemma trydown_sem_ok:
  assumes "default_sync ops" and "sem_ok sem" and "can_block ctx"
  shows "\<exists>r sem' log. uth_semaphore_trydown ops ctx sem = Some (r, sem', log) \<and> sem_ok sem'"
  using run_once_sem_ok[OF assms(1,2)] assms(1,3)
  by (auto simp: uth_semaphore_trydown_def Let_def sem_ok_def sem_inv_def spin_pdr_lock_def
        spin_pdr_unlock_def split: option.splits prod.splits)

lemma up_sem_ok:
  assumes "default_sync ops" and "sem_ok sem"
  shows "\<exists>sem' log. uth_semaphore_up ops sem = Some (sem', log) \<and> sem_ok sem'"
  using run_once_sem_ok[OF assms(1,2)] assms(1)
  by (auto simp: uth_semaphore_up_def Let_def sem_ok_def sem_inv_def spin_pdr_lock_def
        spin_pdr_unlock_def default_sync_def get_next_default
        split: option.splits prod.splits list.splits)

lemma alarm_sem_ok:
  assumes "default_sync ops" and "sem_ok sem"
  shows "\<exists>sem'. sem_step ops sem (Alarm t) = Some sem' \<and> sem_ok sem'"
  using assms
  by (auto simp: timeout_handler_def Let_def sem_ok_def sem_inv_def spin_pdr_lock_def
        spin_pdr_unlock_def default_sync_def get_uth_default
        split: option.splits prod.splits)

lemma sem_step_ok:
  assumes "default_sync ops" and "sem_ok sem"
  shows "\<exists>sem'. sem_step ops sem c = Some sem' \<and> sem_ok sem'"
proof (cases c)
  case (Down t)
  with timed_down_sem_ok[OF assms, of "thread_ctx t" None] show ?thesis
    by (auto simp: uth_semaphore_down_def thread_ctx_def)
next
  case (Timed_down t ts)
  with timed_down_sem_ok[OF assms, of "thread_ctx t" "Some ts"] show ?thesis
    by (auto simp: thread_ctx_def)
next
  case (Trydown t)
  with trydown_sem_ok[OF assms, of "thread_ctx t"] show ?thesis
    by (auto simp: thread_ctx_def)
next
  case Up
  with up_sem_ok[OF assms] show ?thesis by auto
next
  case (Alarm t)
  with alarm_sem_ok[OF assms] show ?thesis by auto
qed

lemma sem_run_ok:
  assumes "default_sync ops"
  shows "sem_ok sem \<Longrightarrow> \<exists>sem'. sem_run ops sem cs = Some sem' \<and> sem_ok sem'"
proof (induction cs arbitrary: sem)
  case Nil
  then show ?case by simp
next
  case (Cons c cs)
  from sem_step_ok[OF assms Cons.prems, of c] obtain s1
    where s1: "sem_step ops sem c = Some s1" "sem_ok s1" by blast
  from Cons.IH[OF s1(2)] s1(1) show ?case by simp
qed

lemma sem_init_ok:
  "default_sync ops \<Longrightarrow> sem_ok (uth_semaphore_init ops any count)"
  by (simp add: sem_ok_def sem_inv_def uth_semaphore_init_def uu_uth_semaphore_init_def
        parlib_set_ran_once_def spin_pdr_init_def default_sync_def sync_init_default Let_def)

lemma sem_static_ok: "sem_ok (uth_semaphore_static count)"
  by (simp add: sem_ok_def sem_inv_def uth_semaphore_static_def)

text \<open>
  Claim C2. Take a semaphore as \<^verbatim>\<open>uth_semaphore_init\<close> or the static initialiser
  leaves it, with any count, and any sequence of down, timed down, trydown and up calls
  by any threads, with alarms of timed downs going off anywhere in between, under the
  default queue. Every call returns or yields (none spins), and at the quiescent point
  after the sequence the spinlock is free, the count is at least 0, and a count above 0
  means that the wait queue is empty. Since every prefix of a sequence is a sequence, this
  holds at every quiescent point.
\<close>

theorem sem_invariant_every_sequence:
  assumes "default_sync ops"
    and "sem0 = uth_semaphore_init ops any count \<or> sem0 = uth_semaphore_static count"
  shows "\<exists>sem. sem_run ops sem0 calls = Some sem \<and> \<not> sem_lock sem \<and> sem_inv sem"
proof -
  from assms have "sem_ok sem0" using sem_init_ok sem_static_ok by blast
  from sem_run_ok[OF assms(1) this] show ?thesis by (simp add: sem_ok_def)
qed

theorem sem_invariant_every_sequence_witness:
  "default_sync no_hooks \<and>
   sem_run no_hooks (uth_semaphore_static 1) [Down 1, Timed_down 2 50, Down 3, Alarm 2, Up, Up, Up] =
     Some \<lparr> sem_lock = False, sem_count = 2, sem_sync_obj = [], sem_once_ctl = True \<rparr> \<and>
   sem_count \<lparr> sem_lock = False, sem_count = 2, sem_sync_obj = [], sem_once_ctl = True \<rparr> > 0 \<and>
   sem_sync_obj \<lparr> sem_lock = False, sem_count = 2, sem_sync_obj = [], sem_once_ctl = True \<rparr> = []"
  using sem_invariant_every_sequence
    [of no_hooks "uth_semaphore_static 1" _ 1
        "[Down 1, Timed_down 2 50, Down 3, Alarm 2, Up, Up, Up]"]
  by (simp add: default_sync_def no_hooks_def uth_semaphore_static_def thread_ctx_def
        uth_semaphore_down_def uth_semaphore_timed_down_def uth_semaphore_up_def
        timeout_handler_def set_timeout_blob_def set_timeout_alarm_def uu_semaphore_cb_def
        parlib_run_once_def uu_uth_semaphore_init_def spin_pdr_init_def spin_pdr_lock_def
        spin_pdr_unlock_def uu_uth_sync_init_def uth_default_sync_init_def
        uu_uth_sync_enqueue_def uth_default_sync_enqueue_def uu_uth_sync_get_next_def
        uth_default_sync_get_next_def uu_uth_sync_get_uth_def Let_def)

section \<open>The reader-writer lock invariant\<close>

lemma run_once_rw_ok:
  assumes "default_sync ops" and "rw_ok rwl"
  shows "rw_ok (parlib_run_once rw_once_ctl rw_once_ctl_update (uu_uth_rwlock_init ops) rwl)"
  using assms
  by (auto simp: rw_ok_def rw_inv_def parlib_run_once_def uu_uth_rwlock_init_def
        spin_pdr_init_def default_sync_def sync_init_default)

lemma rdlock_rw_ok:
  assumes "default_sync ops" and "rw_ok rwl" and "can_block ctx"
  shows "\<exists>r rwl' log. uth_rwlock_rdlock ops ctx rwl = Some (r, rwl', log) \<and> rw_ok rwl'"
  using run_once_rw_ok[OF assms(1,2)] assms(1,3)
  by (auto simp: uth_rwlock_rdlock_def Let_def rw_ok_def rw_inv_def spin_pdr_lock_def
        spin_pdr_unlock_def uu_rwlock_rd_cb_def default_sync_def enqueue_default
        split: option.splits prod.splits)

lemma try_rdlock_rw_ok:
  assumes "default_sync ops" and "rw_ok rwl" and "can_block ctx"
  shows "\<exists>r rwl' log. uth_rwlock_try_rdlock ops ctx rwl = Some (r, rwl', log) \<and> rw_ok rwl'"
  using run_once_rw_ok[OF assms(1,2)] assms(1,3)
  by (auto simp: uth_rwlock_try_rdlock_def Let_def rw_ok_def rw_inv_def spin_pdr_lock_def
        spin_pdr_unlock_def split: option.splits prod.splits)

lemma wrlock_rw_ok:
  assumes "default_sync ops" and "rw_ok rwl" and "can_block ctx"
  shows "\<exists>r rwl' log. uth_rwlock_wrlock ops ctx rwl = Some (r, rwl', log) \<and> rw_ok rwl'"
  using run_once_rw_ok[OF assms(1,2)] assms(1,3)
  by (auto simp: uth_rwlock_wrlock_def Let_def rw_ok_def rw_inv_def spin_pdr_lock_def
        spin_pdr_unlock_def uu_rwlock_wr_cb_def default_sync_def enqueue_default
        split: option.splits prod.splits)

lemma try_wrlock_rw_ok:
  assumes "default_sync ops" and "rw_ok rwl" and "can_block ctx"
  shows "\<exists>r rwl' log. uth_rwlock_try_wrlock ops ctx rwl = Some (r, rwl', log) \<and> rw_ok rwl'"
  using run_once_rw_ok[OF assms(1,2)] assms(1,3)
  by (auto simp: uth_rwlock_try_wrlock_def Let_def rw_ok_def rw_inv_def spin_pdr_lock_def
        spin_pdr_unlock_def split: option.splits prod.splits)

lemma unlock_rw_ok:
  assumes "default_sync ops" and "rw_ok rwl"
  shows "\<exists>rwl' log. uth_rwlock_unlock ops rwl = Some (rwl', log) \<and> rw_ok rwl'"
  using assms
  by (auto simp: uth_rwlock_unlock_def uu_rw_unlock_writer_def uu_rw_unlock_reader_def Let_def
        rw_ok_def rw_inv_def spin_pdr_lock_def spin_pdr_unlock_def default_sync_def
        get_next_default rw_drain_readers_default
        split: option.splits prod.splits list.splits)

lemma rw_step_ok:
  assumes "default_sync ops" and "rw_ok rwl"
  shows "\<exists>rwl'. rw_step ops rwl c = Some rwl' \<and> rw_ok rwl'"
proof (cases c)
  case (Rdlock t)
  with rdlock_rw_ok[OF assms, of "thread_ctx t"] show ?thesis
    by (auto simp: thread_ctx_def)
next
  case (Try_rdlock t)
  with try_rdlock_rw_ok[OF assms, of "thread_ctx t"] show ?thesis
    by (auto simp: thread_ctx_def)
next
  case (Wrlock t)
  with wrlock_rw_ok[OF assms, of "thread_ctx t"] show ?thesis
    by (auto simp: thread_ctx_def)
next
  case (Try_wrlock t)
  with try_wrlock_rw_ok[OF assms, of "thread_ctx t"] show ?thesis
    by (auto simp: thread_ctx_def)
next
  case Unlock
  with unlock_rw_ok[OF assms] show ?thesis by auto
qed

lemma rw_run_ok:
  assumes "default_sync ops"
  shows "rw_ok rwl \<Longrightarrow> \<exists>rwl'. rw_run ops rwl cs = Some rwl' \<and> rw_ok rwl'"
proof (induction cs arbitrary: rwl)
  case Nil
  then show ?case by simp
next
  case (Cons c cs)
  from rw_step_ok[OF assms Cons.prems, of c] obtain s1
    where s1: "rw_step ops rwl c = Some s1" "rw_ok s1" by blast
  from Cons.IH[OF s1(2)] s1(1) show ?case by simp
qed

lemma rw_init_ok:
  "default_sync ops \<Longrightarrow> rw_ok (uth_rwlock_init ops any)"
  by (simp add: rw_ok_def rw_inv_def uth_rwlock_init_def uu_uth_rwlock_init_def
        parlib_set_ran_once_def spin_pdr_init_def default_sync_def sync_init_default)

lemma rw_static_ok: "rw_ok uth_rwlock_static"
  by (simp add: rw_ok_def rw_inv_def uth_rwlock_static_def)

text \<open>
  Claim C5. Take a reader-writer lock as \<^verbatim>\<open>uth_rwlock_init\<close> or the static initialiser
  leaves it, and any sequence of rdlock, tryrdlock, wrlock, trywrlock and unlock calls by
  any threads, under the default queue. Every call returns or yields, and at the quiescent
  point after the sequence the spinlock is free, \<open>has_writer\<close> implies that \<open>nr_readers\<close>
  is 0, and \<open>has_writer\<close> being false implies that the reader wait queue is empty.
\<close>

theorem rw_invariant_every_sequence:
  assumes "default_sync ops"
    and "rwl0 = uth_rwlock_init ops any \<or> rwl0 = uth_rwlock_static"
  shows "\<exists>rwl. rw_run ops rwl0 calls = Some rwl \<and> \<not> rw_lock rwl \<and> rw_inv rwl"
proof -
  from assms have "rw_ok rwl0" using rw_init_ok rw_static_ok by blast
  from rw_run_ok[OF assms(1) this] show ?thesis by (simp add: rw_ok_def)
qed

theorem rw_invariant_every_sequence_witness:
  "default_sync no_hooks \<and>
   rw_run no_hooks uth_rwlock_static [Wrlock 1, Rdlock 2, Wrlock 4, Rdlock 3, Unlock] =
     Some \<lparr> rw_lock = False, nr_readers = 0, has_writer = True, readers = [2, 3],
            writers = [], rw_once_ctl = True \<rparr> \<and>
   has_writer \<lparr> rw_lock = False, nr_readers = 0, has_writer = True, readers = [2, 3],
                writers = [], rw_once_ctl = True \<rparr> \<and>
   rw_run no_hooks uth_rwlock_static [Wrlock 1, Rdlock 2, Wrlock 4, Rdlock 3, Unlock, Unlock] =
     Some \<lparr> rw_lock = False, nr_readers = 2, has_writer = False, readers = [],
            writers = [], rw_once_ctl = True \<rparr> \<and>
   has_writer \<lparr> rw_lock = False, nr_readers = 2, has_writer = False, readers = [],
                writers = [], rw_once_ctl = True \<rparr> = False"
  using rw_invariant_every_sequence
    [of no_hooks uth_rwlock_static _ "[Wrlock 1, Rdlock 2, Wrlock 4, Rdlock 3, Unlock]"]
    rw_invariant_every_sequence
    [of no_hooks uth_rwlock_static _
        "[Wrlock 1, Rdlock 2, Wrlock 4, Rdlock 3, Unlock, Unlock]"]
  by (simp add: default_sync_def no_hooks_def uth_rwlock_static_def thread_ctx_def
        uth_rwlock_rdlock_def uth_rwlock_wrlock_def uth_rwlock_unlock_def
        uu_rw_unlock_writer_def uu_rw_unlock_reader_def uu_rwlock_rd_cb_def
        uu_rwlock_wr_cb_def parlib_run_once_def uu_uth_rwlock_init_def spin_pdr_init_def
        spin_pdr_lock_def spin_pdr_unlock_def sync_init_default enqueue_default
        get_next_default rw_drain_readers_default Let_def)

section \<open>Timed wait on a condition variable\<close>

lemma count_list_remove1_other:
  "t \<noteq> me \<Longrightarrow> count_list (remove1 t q) me = count_list q me"
  by (induction q) auto

lemma count_list_one_remove1:
  "count_list q me = Suc 0 \<Longrightarrow> me \<notin> set (remove1 me q)"
  by (induction q) (auto simp: count_list_0_iff split: if_splits)

lemma count_list_one_mem: "count_list q me = Suc 0 \<Longrightarrow> me \<in> set q"
  using count_list_0_iff[of q me] by fastforce

lemma signal_default:
  assumes "sync_get_next ops = None" and "cv_once_ctl cv" and "\<not> cv_lock cv"
  shows "uth_cond_var_signal ops cv =
           Some (cv\<lparr> cv_sync_obj := tl (cv_sync_obj cv) \<rparr>,
                 [Spin_lock Cv_lock, Spin_unlock Cv_lock] @
                 (case cv_sync_obj cv of [] \<Rightarrow> [] | t # _ \<Rightarrow> [Runnable t]))"
  using assms
  by (auto simp: uth_cond_var_signal_def Let_def spin_pdr_lock_def spin_pdr_unlock_def
        parlib_run_once_def get_next_default split: list.splits)

lemma broadcast_default:
  assumes "default_sync ops" and "cv_once_ctl cv" and "\<not> cv_lock cv"
  shows "uth_cond_var_broadcast ops cv =
           Some (cv\<lparr> cv_sync_obj := [] \<rparr>,
                 [Spin_lock Cv_lock, Spin_unlock Cv_lock] @ map Runnable (cv_sync_obj cv))"
  using assms
  by (auto simp: uth_cond_var_broadcast_def Let_def spin_pdr_lock_def spin_pdr_unlock_def
        parlib_run_once_def default_sync_def uu_uth_sync_is_empty_def
        uth_default_sync_is_empty_def uu_uth_sync_init_def uth_default_sync_init_def
        uu_uth_sync_swap_def uth_default_sync_swap_def uu_uth_sync_wake_all_def
        wake_all_loop_default)

lemma runnable_mem_map [simp]: "Runnable t \<in> Runnable ` set q \<longleftrightarrow> t \<in> set q"
  by auto

lemma handler_default:
  assumes "sync_get_uth ops = None"
  shows "timeout_handler ops blob False sync =
           Some (blob\<lparr> timed_out := timed_out blob \<or> uth blob \<in> set sync \<rparr>, False,
                 remove1 (uth blob) sync,
                 [Spin_lock (lock_ptr blob), Spin_unlock (lock_ptr blob)] @
                 (if timed_out blob \<or> uth blob \<in> set sync then [Runnable (uth blob)] else []))"
  using assms
  by (auto simp: timeout_handler_def Let_def spin_pdr_lock_def spin_pdr_unlock_def
        get_uth_default)

lemma up_default:
  assumes "sync_get_next ops = None" and "sem_once_ctl m" and "\<not> sem_lock m"
  shows "uth_semaphore_up ops m =
           Some (case sem_sync_obj m of
                   [] \<Rightarrow> (m\<lparr> sem_count := sem_count m + 1 \<rparr>,
                           [Spin_lock Sem_lock, Spin_unlock Sem_lock])
                 | h # rest \<Rightarrow> (m\<lparr> sem_sync_obj := rest \<rparr>,
                           [Spin_lock Sem_lock, Spin_unlock Sem_lock, Runnable h]))"
  using assms
  by (auto simp: uth_semaphore_up_def Let_def spin_pdr_lock_def spin_pdr_unlock_def
        parlib_run_once_def get_next_default split: list.splits)

lemma mutex_lock_default:
  assumes "sync_enqueue ops = None" and "sem_once_ctl m" and "\<not> sem_lock m" and "can_block ctx"
  shows "uth_mutex_lock ops ctx m =
           Some (if sem_count m > 0
                 then (Returned True, m\<lparr> sem_count := sem_count m - 1 \<rparr>,
                       [Spin_lock Sem_lock, Spin_unlock Sem_lock])
                 else (Yielded None,
                       m\<lparr> sem_sync_obj := sem_sync_obj m @ [current_uthread ctx] \<rparr>,
                       [Spin_lock Sem_lock, Yield (current_uthread ctx),
                        Has_blocked (current_uthread ctx), Spin_unlock Sem_lock]))"
  using assms
  by (auto simp: uth_mutex_lock_def uth_semaphore_down_def uth_semaphore_timed_down_def Let_def
        spin_pdr_lock_def spin_pdr_unlock_def parlib_run_once_def uu_semaphore_cb_def
        enqueue_default)

lemma thread_ctx_sel: "current_uthread (thread_ctx t) = t" "can_block (thread_ctx t)"
  by (simp_all add: thread_ctx_def)

lemma resume_default:
  assumes "sync_enqueue ops = None" and "sem_once_ctl m" and "\<not> sem_lock m" and "can_block ctx"
  shows "uth_cond_var_timed_wait_resume ops ctx m blob =
     (let ret = (case blob of None \<Rightarrow> True | Some b \<Rightarrow> \<not> timed_out b);
          log = (case blob of None \<Rightarrow> [] | Some b \<Rightarrow> [Unset_alarm (uth b)])
      in Some (if sem_count m > 0
               then (Returned ret, m\<lparr> sem_count := sem_count m - 1 \<rparr>,
                     log @ [Spin_lock Sem_lock, Spin_unlock Sem_lock])
               else (Yielded ret,
                     m\<lparr> sem_sync_obj := sem_sync_obj m @ [current_uthread ctx] \<rparr>,
                     log @ [Spin_lock Sem_lock, Yield (current_uthread ctx),
                            Has_blocked (current_uthread ctx), Spin_unlock Sem_lock])))"
  by (auto simp: uth_cond_var_timed_wait_resume_def mutex_lock_default[OF assms] Let_def
        split: option.splits)

text \<open>
  Claim C3. Thread \<open>me\<close> calls \<^verbatim>\<open>uth_cond_var_timed_wait(cv, mtx, abs_timeout)\<close> on a
  condition variable and an initialised mutex whose spinlocks are free, being on neither
  queue, under the default queue. (1) The call yields: under the spinlock of \<open>cv\<close> it arms
  the alarm if there is a deadline and puts \<open>me\<close> at the tail of the queue of \<open>cv\<close>, and
  only then, the spinlock released, it unlocks \<open>mtx\<close>. (2) Then, after any steps of other
  threads and alarms (signals, broadcasts, the waiter's alarm going off, waits of other
  threads and their alarms, locks and unlocks of the mutex), either \<open>me\<close> is still in the
  queue and nothing has made it runnable, or exactly one step \<open>w\<close> has made it runnable,
  a signal, a broadcast or its alarm, and it is out of the queue. (3) When \<open>me\<close> then runs
  again, the code after the yield calls \<^verbatim>\<open>uth_mutex_lock(mtx)\<close> on every path: it does
  not spin, and either it takes a unit of the mutex at once and returns, or, the mutex
  having none, it queues \<open>me\<close> on the mutex and returns only when the mutex is handed to
  \<open>me\<close>. (4) The value it returns is true iff \<open>w\<close> was a signal or a broadcast, false iff
  \<open>w\<close> was the alarm, and true whenever there is no deadline.
\<close>


lemma woken_up_log [simp]:
  "woken [Spin_lock l, Spin_unlock l'] = []"
  "woken [Spin_lock l, Spin_unlock l', Runnable h] = [h]"
  by simp_all

lemma enqueue_part_default:
  assumes "sync_enqueue ops = None" and "cv_once_ctl cv" and "\<not> cv_lock cv" and "can_block ctx"
  shows "uth_cond_var_timed_wait_enqueue ops ctx cv abs_timeout =
           Some (map_option (\<lambda>_. set_timeout_blob ctx Cv_lock) abs_timeout,
                 cv\<lparr> cv_sync_obj := cv_sync_obj cv @ [current_uthread ctx] \<rparr>,
                 [Spin_lock Cv_lock] @
                 (case abs_timeout of None \<Rightarrow> []
                  | Some ts \<Rightarrow> [Set_alarm (current_uthread ctx) ts]) @
                 [Yield (current_uthread ctx), Has_blocked (current_uthread ctx),
                  Spin_unlock Cv_lock])"
  using assms
  by (auto simp: uth_cond_var_timed_wait_enqueue_def uu_cv_wait_cb_enqueue_def Let_def
        spin_pdr_lock_def spin_pdr_unlock_def parlib_run_once_def enqueue_default
        set_timeout_alarm_def set_timeout_blob_def split: option.splits)

lemma timed_wait_split:
  "uth_cond_var_timed_wait ops ctx cv mtx abs_timeout =
     (case uth_cond_var_timed_wait_enqueue ops ctx cv abs_timeout of
        None \<Rightarrow> None
      | Some (blob, cv', log) \<Rightarrow>
          (case uth_mutex_unlock ops mtx of
             None \<Rightarrow> None
           | Some (mtx', mtx_log) \<Rightarrow> Some (Yielded blob, cv', mtx', log @ mtx_log)))"
  by (auto simp: uth_cond_var_timed_wait_def uth_cond_var_timed_wait_enqueue_def
        uu_cv_wait_cb_def uu_cv_wait_cb_enqueue_def Let_def
        split: option.splits prod.splits)

lemma enqueue_part_run_once:
  "uth_cond_var_timed_wait_enqueue ops ctx
     (parlib_run_once cv_once_ctl cv_once_ctl_update (uu_uth_cond_var_init ops) cv) abs_timeout =
   uth_cond_var_timed_wait_enqueue ops ctx cv abs_timeout"
  by (simp add: uth_cond_var_timed_wait_enqueue_def parlib_run_once_def)

lemmas cv_inv_defs = cv_sys_inv_def cv_sys_base_def cv_phase_inv_def note_wake_def

lemma step_signal:
  assumes "default_sync ops" and "cv_sys_inv me sys"
  shows "\<exists>sys'. cv_step ops me sys Signal = Some sys' \<and> cv_sys_inv me sys'"
proof -
  from assms have g: "sync_get_next ops = None"
    and c: "cv_once_ctl (sys_cv sys)" "\<not> cv_lock (sys_cv sys)"
    by (auto simp: default_sync_def cv_inv_defs)
  show ?thesis
  proof (cases "cv_sync_obj (sys_cv sys)")
    case Nil
    with assms(2) show ?thesis
      by (cases "sys_phase sys")
         (auto simp: signal_default[OF g c] cv_inv_defs split: option.splits)
  next
    case (Cons t rest)
    with assms(2) show ?thesis
      by (cases "sys_phase sys")
         (auto simp: signal_default[OF g c] cv_inv_defs count_list_0_iff
            split: option.splits if_splits)
  qed
qed

lemma step_broadcast:
  assumes "default_sync ops" and "cv_sys_inv me sys"
  shows "\<exists>sys'. cv_step ops me sys Broadcast = Some sys' \<and> cv_sys_inv me sys'"
proof -
  from assms have c: "cv_once_ctl (sys_cv sys)" "\<not> cv_lock (sys_cv sys)"
    by (auto simp: cv_inv_defs)
  from assms(2) show ?thesis
    by (cases "sys_phase sys")
       (auto simp: broadcast_default[OF assms(1) c] cv_inv_defs dest: count_list_one_mem
          split: option.splits if_splits)
qed

lemma step_alarm:
  assumes "default_sync ops" and "cv_sys_inv me sys"
  shows "\<exists>sys'. cv_step ops me sys Alarm_fires = Some sys' \<and> cv_sys_inv me sys'"
proof -
  from assms have g: "sync_get_uth ops = None"
    by (auto simp: default_sync_def)
  from assms(2) show ?thesis
    by (cases "sys_phase sys")
       (auto simp: handler_default[OF g] cv_inv_defs
          dest: count_list_one_mem count_list_one_remove1
          split: option.splits if_splits)
qed

lemma step_other_alarm:
  assumes "default_sync ops" and "cv_sys_inv me sys" and "t \<noteq> me"
  shows "\<exists>sys'. cv_step ops me sys (Other_alarm t) = Some sys' \<and> cv_sys_inv me sys'"
proof -
  from assms have g: "sync_get_uth ops = None"
    by (auto simp: default_sync_def)
  from assms(2,3) show ?thesis
    by (cases "sys_phase sys")
       (auto simp: handler_default[OF g] cv_inv_defs set_timeout_blob_def thread_ctx_sel
          count_list_remove1_other
          split: option.splits if_splits)
qed

lemma step_other_wait:
  assumes "default_sync ops" and "cv_sys_inv me sys" and "t \<noteq> me"
  shows "\<exists>sys'. cv_step ops me sys (Other_wait t abs_timeout) = Some sys' \<and> cv_sys_inv me sys'"
proof -
  from assms have g: "sync_enqueue ops = None"
    and c: "cv_once_ctl (sys_cv sys)" "\<not> cv_lock (sys_cv sys)"
    by (auto simp: default_sync_def cv_inv_defs)
  have cb: "can_block (thread_ctx t)" by (simp add: thread_ctx_sel)
  from assms(2,3) show ?thesis
    by (cases "sys_phase sys")
       (auto simp: enqueue_part_default[OF g c cb] cv_inv_defs thread_ctx_sel
          split: option.splits if_splits)
qed


lemma length_one_conv: "length xs = Suc 0 \<longleftrightarrow> (\<exists>x. xs = [x])"
  by (cases xs) auto

lemma step_other_lock:
  assumes "default_sync ops" and "cv_sys_inv me sys" and "t \<noteq> me"
  shows "\<exists>sys'. cv_step ops me sys (Other_lock t) = Some sys' \<and> cv_sys_inv me sys'"
proof -
  from assms have g: "sync_enqueue ops = None"
    and m: "sem_once_ctl (sys_mtx sys)" "\<not> sem_lock (sys_mtx sys)"
    by (auto simp: default_sync_def cv_inv_defs)
  have cb: "can_block (thread_ctx t)" by (simp add: thread_ctx_sel)
  from assms(2,3) show ?thesis
    by (cases "sys_phase sys")
       (auto simp: mutex_lock_default[OF g m cb] cv_inv_defs thread_ctx_sel
          split: option.splits if_splits)
qed

lemma step_cb_unlock:
  assumes "default_sync ops" and "cv_sys_inv me sys"
  shows "\<exists>sys'. cv_step ops me sys Cb_unlock = Some sys' \<and> cv_sys_inv me sys'"
proof (cases "sys_cb_pending sys")
  case False
  with assms(2) show ?thesis by simp
next
  case True
  from assms have g: "sync_get_next ops = None"
    and m: "sem_once_ctl (sys_mtx sys)" "\<not> sem_lock (sys_mtx sys)"
    by (auto simp: default_sync_def cv_inv_defs)
  from True assms(2) have h: "sys_holders sys = [me]" "sem_count (sys_mtx sys) = 0"
    by (auto simp: cv_inv_defs)
  show ?thesis
  proof (cases "sem_sync_obj (sys_mtx sys)")
    case Nil
    with True h assms(2) show ?thesis
      by (cases "sys_phase sys")
         (auto simp: mtx_unlock_step_def uth_mutex_unlock_def up_default[OF g m] cv_inv_defs
            split: option.splits)
  next
    case (Cons x rest)
    with True h assms(2) show ?thesis
      by (cases "sys_phase sys")
         (auto simp: mtx_unlock_step_def uth_mutex_unlock_def up_default[OF g m] cv_inv_defs
            count_list_0_iff split: if_splits option.splits)
  qed
qed

lemma step_other_unlock:
  assumes "default_sync ops" and "cv_sys_inv me sys" and "t \<noteq> me"
  shows "\<exists>sys'. cv_step ops me sys (Other_unlock t) = Some sys' \<and> cv_sys_inv me sys'"
proof (cases "t \<in> set (sys_holders sys)")
  case False
  with assms(2) show ?thesis by simp
next
  case True
  from assms have g: "sync_get_next ops = None"
    and m: "sem_once_ctl (sys_mtx sys)" "\<not> sem_lock (sys_mtx sys)"
    by (auto simp: default_sync_def cv_inv_defs)
  from True assms(2) have h: "sys_holders sys = [t]" "sem_count (sys_mtx sys) = 0"
    by (auto simp: cv_inv_defs length_one_conv)
  show ?thesis
  proof (cases "sem_sync_obj (sys_mtx sys)")
    case Nil
    with True h assms(2,3) show ?thesis
      by (cases "sys_phase sys")
         (auto simp: mtx_unlock_step_def uth_mutex_unlock_def up_default[OF g m] cv_inv_defs
            split: option.splits)
  next
    case (Cons x rest)
    with True h assms(2,3) show ?thesis
      by (cases "sys_phase sys")
         (auto simp: mtx_unlock_step_def uth_mutex_unlock_def up_default[OF g m] cv_inv_defs
            count_list_0_iff split: if_splits option.splits)
  qed
qed

lemma step_me_runs:
  assumes "default_sync ops" and "cv_sys_inv me sys"
  shows "\<exists>sys'. cv_step ops me sys Me_runs = Some sys' \<and> cv_sys_inv me sys'"
proof -
  from assms have g: "sync_enqueue ops = None"
    and m: "sem_once_ctl (sys_mtx sys)" "\<not> sem_lock (sys_mtx sys)"
    by (auto simp: default_sync_def cv_inv_defs)
  have cb: "can_block (thread_ctx me)" by (simp add: thread_ctx_sel)
  note res = resume_default[OF g m cb, where blob = "sys_blob sys"]
  show ?thesis
  proof (cases "sys_phase sys")
    case Cv_woken
    show ?thesis
    proof (cases "sem_count (sys_mtx sys) > 0")
      case True
      with Cv_woken assms(2) res show ?thesis
        by (auto simp: cv_inv_defs Let_def thread_ctx_sel split: option.splits)
    next
      case False
      with Cv_woken assms(2) res show ?thesis
        by (auto simp: cv_inv_defs Let_def thread_ctx_sel split: option.splits)
    qed
  qed (use assms(2) in \<open>auto simp: cv_inv_defs uth_cond_var_timed_wait_return_def
         split: option.splits\<close>)
qed


lemma cv_step_inv:
  assumes "default_sync ops" and "cv_sys_inv me sys" and "act_thread a \<noteq> Some me"
  shows "\<exists>sys'. cv_step ops me sys a = Some sys' \<and> cv_sys_inv me sys'"
proof (cases a)
  case Signal
  with step_signal[OF assms(1,2)] show ?thesis by simp
next
  case Broadcast
  with step_broadcast[OF assms(1,2)] show ?thesis by simp
next
  case Alarm_fires
  with step_alarm[OF assms(1,2)] show ?thesis by simp
next
  case Cb_unlock
  with step_cb_unlock[OF assms(1,2)] show ?thesis by simp
next
  case Me_runs
  with step_me_runs[OF assms(1,2)] show ?thesis by simp
next
  case (Other_wait t abs_timeout)
  with step_other_wait[OF assms(1,2), of t abs_timeout] assms(3) show ?thesis by simp
next
  case (Other_alarm t)
  with step_other_alarm[OF assms(1,2), of t] assms(3) show ?thesis by simp
next
  case (Other_lock t)
  with step_other_lock[OF assms(1,2), of t] assms(3) show ?thesis by simp
next
  case (Other_unlock t)
  with step_other_unlock[OF assms(1,2), of t] assms(3) show ?thesis by simp
qed

lemma cv_run_inv:
  assumes "default_sync ops"
  shows "cv_sys_inv me sys \<Longrightarrow> \<forall>a \<in> set acts. act_thread a \<noteq> Some me \<Longrightarrow>
         \<exists>sys'. cv_run ops me sys acts = Some sys' \<and> cv_sys_inv me sys'"
proof (induction acts arbitrary: sys)
  case Nil
  then show ?case by simp
next
  case (Cons a acts)
  from cv_step_inv[OF assms Cons.prems(1), of a] Cons.prems(2) obtain s1
    where s1: "cv_step ops me sys a = Some s1" "cv_sys_inv me s1" by auto
  from Cons.IH[OF s1(2)] Cons.prems(2) s1(1) show ?case by simp
qed

lemma cv_step_blob_None:
  "sys_blob sys = None \<Longrightarrow> cv_step ops me sys a = Some sys' \<Longrightarrow> sys_blob sys' = None"
  by (cases a)
     (auto simp: note_wake_def mtx_unlock_step_def
        split: option.splits if_splits wait_phase.splits yield.splits)

lemma cv_run_blob_None:
  "sys_blob sys = None \<Longrightarrow> cv_run ops me sys acts = Some sys' \<Longrightarrow> sys_blob sys' = None"
proof (induction acts arbitrary: sys)
  case Nil
  then show ?case by simp
next
  case (Cons a acts)
  then show ?case by (auto split: option.splits dest: cv_step_blob_None)
qed

text \<open>
  Claim C3. Thread \<open>me\<close> holds an initialised mutex (count 0) and calls
  \<^verbatim>\<open>uth_cond_var_timed_wait(cv, mtx, abs_timeout)\<close>; the spinlocks are free, \<open>me\<close> is on
  neither queue, and the queue is the default one.
  (1) Run without interruption, the call yields, and this is all it has done: under the
  spinlock of \<open>cv\<close> it armed the alarm if there is a deadline and put \<open>me\<close> at the tail of
  the queue of \<open>cv\<close>; after releasing that spinlock it unlocked \<open>mtx\<close>: the head of the
  queue of the mutex is popped and made runnable, or, nobody waiting there, the count goes
  up by one.
  (2) Take the two locked regions of the call apart, and let other vcores take any steps
  after the first one: signals, broadcasts, alarms, locks, unlocks and waits of other
  threads, the unlock of the callback, and the scheduler running \<open>me\<close>. Every step returns,
  and at every point the mutex has either no free unit and one holder, or one free unit
  and no holder.
  (3) \<open>me\<close> is made runnable from the condition variable by exactly one step, a signal, a
  broadcast or its alarm. When it then runs, the code after the yield unsets the alarm and
  calls \<^verbatim>\<open>uth_mutex_lock(mtx)\<close> on every path: it takes the free unit and returns, or,
  none being free, puts \<open>me\<close> on the queue of the mutex. From there only an unlock that
  pops \<open>me\<close> makes \<open>me\<close> runnable, and then \<open>me\<close> is the holder and no unit is free.
  (4) Whenever the wait has returned, \<open>me\<close> is the one holder of the mutex and the mutex
  has no free unit. The value returned is true iff \<open>me\<close> was woken by a signal or a
  broadcast and false iff by its alarm, and it is true when there is no deadline.
\<close>

theorem cond_var_timed_wait_contract:
  assumes "default_sync ops"
    and "\<not> cv_lock cv" and "me \<notin> set (cv_sync_obj cv)"
    and "sem_once_ctl mtx" and "\<not> sem_lock mtx" and "sem_count mtx = 0"
    and "me \<notin> set (sem_sync_obj mtx)"
    and "\<forall>a \<in> set acts. act_thread a \<noteq> Some me"
  shows
    "uth_cond_var_timed_wait ops (thread_ctx me) cv mtx abs_timeout =
       Some (Yielded (map_option (\<lambda>_. set_timeout_blob (thread_ctx me) Cv_lock) abs_timeout),
             (parlib_run_once cv_once_ctl cv_once_ctl_update (uu_uth_cond_var_init ops) cv)
               \<lparr> cv_sync_obj :=
                   cv_sync_obj (parlib_run_once cv_once_ctl cv_once_ctl_update
                                  (uu_uth_cond_var_init ops) cv) @ [me] \<rparr>,
             (case sem_sync_obj mtx of
                [] \<Rightarrow> mtx\<lparr> sem_count := sem_count mtx + 1 \<rparr>
              | h # rest \<Rightarrow> mtx\<lparr> sem_sync_obj := rest \<rparr>),
             [Spin_lock Cv_lock] @
             (case abs_timeout of None \<Rightarrow> [] | Some ts \<Rightarrow> [Set_alarm me ts]) @
             [Yield me, Has_blocked me, Spin_unlock Cv_lock,
              Spin_lock Sem_lock, Spin_unlock Sem_lock] @
             (case sem_sync_obj mtx of [] \<Rightarrow> [] | h # rest \<Rightarrow> [Runnable h])) \<and>
     (\<exists>sys0 sys.
        cv_wait_start ops me cv mtx abs_timeout = Some sys0 \<and>
        cv_sync_obj (sys_cv sys0) =
          cv_sync_obj (parlib_run_once cv_once_ctl cv_once_ctl_update
                         (uu_uth_cond_var_init ops) cv) @ [me] \<and>
        sys_mtx sys0 = mtx \<and>
        cv_run ops me sys0 acts = Some sys \<and>
        (sem_count (sys_mtx sys) = 0 \<and> length (sys_holders sys) = 1 \<or>
         sem_count (sys_mtx sys) = 1 \<and> sys_holders sys = []) \<and>
        (case sys_phase sys of
           Cv_asleep \<Rightarrow>
             sys_wakers sys = [] \<and> me \<in> set (cv_sync_obj (sys_cv sys))
         | Cv_woken \<Rightarrow>
             me \<notin> set (cv_sync_obj (sys_cv sys)) \<and>
             (\<exists>w. sys_wakers sys = [w] \<and> cv_waker w \<and>
                  uth_cond_var_timed_wait_resume ops (thread_ctx me) (sys_mtx sys)
                      (sys_blob sys) =
                    Some (if sem_count (sys_mtx sys) > 0
                          then (Returned (w \<noteq> Alarm_fires),
                                (sys_mtx sys)\<lparr> sem_count := sem_count (sys_mtx sys) - 1 \<rparr>,
                                (case sys_blob sys of None \<Rightarrow> []
                                 | Some b \<Rightarrow> [Unset_alarm me]) @
                                [Spin_lock Sem_lock, Spin_unlock Sem_lock])
                          else (Yielded (w \<noteq> Alarm_fires),
                                (sys_mtx sys)
                                  \<lparr> sem_sync_obj := sem_sync_obj (sys_mtx sys) @ [me] \<rparr>,
                                (case sys_blob sys of None \<Rightarrow> []
                                 | Some b \<Rightarrow> [Unset_alarm me]) @
                                [Spin_lock Sem_lock, Yield me, Has_blocked me,
                                 Spin_unlock Sem_lock])))
         | Mtx_asleep ret \<Rightarrow>
             me \<in> set (sem_sync_obj (sys_mtx sys)) \<and>
             (\<exists>w. sys_wakers sys = [w] \<and> cv_waker w \<and> ret = (w \<noteq> Alarm_fires)) \<and>
             (abs_timeout = None \<longrightarrow> ret)
         | Mtx_woken ret \<Rightarrow>
             sys_holders sys = [me] \<and> sem_count (sys_mtx sys) = 0 \<and>
             (\<exists>w u. sys_wakers sys = [w, u] \<and> cv_waker w \<and> is_unlock u \<and>
                    ret = (w \<noteq> Alarm_fires)) \<and>
             (abs_timeout = None \<longrightarrow> ret)
         | Returned_wait ret \<Rightarrow>
             sys_holders sys = [me] \<and> sem_count (sys_mtx sys) = 0 \<and>
             (\<exists>w. (sys_wakers sys = [w] \<or> (\<exists>u. sys_wakers sys = [w, u] \<and> is_unlock u)) \<and>
                  cv_waker w \<and> ret = (w \<noteq> Alarm_fires)) \<and>
             (abs_timeout = None \<longrightarrow> ret)))"
proof -
  let ?cv1 = "parlib_run_once cv_once_ctl cv_once_ctl_update (uu_uth_cond_var_init ops) cv"
  let ?blob = "map_option (\<lambda>_. set_timeout_blob (thread_ctx me) Cv_lock) abs_timeout"
  from assms(1) have gn: "sync_get_next ops = None" and en: "sync_enqueue ops = None"
    and si: "sync_init ops = None"
    by (simp_all add: default_sync_def)
  have cv1: "cv_once_ctl ?cv1" "\<not> cv_lock ?cv1" "me \<notin> set (cv_sync_obj ?cv1)"
    using assms(2,3) si
    by (auto simp: parlib_run_once_def uu_uth_cond_var_init_def spin_pdr_init_def
          sync_init_default)
  have cb: "can_block (thread_ctx me)" by (simp add: thread_ctx_sel)
  have enq: "uth_cond_var_timed_wait_enqueue ops (thread_ctx me) cv abs_timeout =
        Some (?blob, ?cv1\<lparr> cv_sync_obj := cv_sync_obj ?cv1 @ [me] \<rparr>,
              [Spin_lock Cv_lock] @
              (case abs_timeout of None \<Rightarrow> [] | Some ts \<Rightarrow> [Set_alarm me ts]) @
              [Yield me, Has_blocked me, Spin_unlock Cv_lock])"
    using enqueue_part_default[OF en cv1(1,2) cb, where abs_timeout = abs_timeout]
    by (simp add: enqueue_part_run_once thread_ctx_sel cong: option.case_cong)
  have call: "uth_cond_var_timed_wait ops (thread_ctx me) cv mtx abs_timeout =
       Some (Yielded ?blob, ?cv1\<lparr> cv_sync_obj := cv_sync_obj ?cv1 @ [me] \<rparr>,
             (case sem_sync_obj mtx of
                [] \<Rightarrow> mtx\<lparr> sem_count := sem_count mtx + 1 \<rparr>
              | h # rest \<Rightarrow> mtx\<lparr> sem_sync_obj := rest \<rparr>),
             [Spin_lock Cv_lock] @
             (case abs_timeout of None \<Rightarrow> [] | Some ts \<Rightarrow> [Set_alarm me ts]) @
             [Yield me, Has_blocked me, Spin_unlock Cv_lock,
              Spin_lock Sem_lock, Spin_unlock Sem_lock] @
             (case sem_sync_obj mtx of [] \<Rightarrow> [] | h # rest \<Rightarrow> [Runnable h]))"
    by (cases "sem_sync_obj mtx")
       (simp_all add: timed_wait_split enq uth_mutex_unlock_def up_default[OF gn assms(4,5)])
  define sys0 where "sys0 =
     \<lparr> sys_cv = ?cv1\<lparr> cv_sync_obj := cv_sync_obj ?cv1 @ [me] \<rparr>, sys_mtx = mtx,
       sys_blob = ?blob, sys_armed = (?blob \<noteq> None), sys_cb_pending = True,
       sys_holders = [me], sys_phase = Cv_asleep, sys_wakers = [] \<rparr>"
  have start: "cv_wait_start ops me cv mtx abs_timeout = Some sys0"
    by (simp add: cv_wait_start_def enq sys0_def)
  have q0: "cv_sync_obj (sys_cv sys0) = cv_sync_obj ?cv1 @ [me]" "sys_mtx sys0 = mtx"
    by (simp_all add: sys0_def)
  have inv0: "cv_sys_inv me sys0"
    using cv1 assms(4,5,6,7)
    by (cases abs_timeout)
       (auto simp: cv_inv_defs sys0_def set_timeout_blob_def thread_ctx_sel)
  from cv_run_inv[OF assms(1) inv0 assms(8)] obtain sys
    where run: "cv_run ops me sys0 acts = Some sys" and inv: "cv_sys_inv me sys" by blast
  have none: "abs_timeout = None \<Longrightarrow> sys_blob sys = None"
    using cv_run_blob_None[OF _ run] by (simp add: sys0_def)
  from inv have m: "sem_once_ctl (sys_mtx sys)" "\<not> sem_lock (sys_mtx sys)"
    by (simp_all add: cv_inv_defs)
  from inv have bu: "\<And>b. sys_blob sys = Some b \<Longrightarrow> uth b = me"
    by (auto simp: cv_inv_defs)
  note res = resume_default[OF en m cb, where blob = "sys_blob sys"]
  from inv have excl: "sem_count (sys_mtx sys) = 0 \<and> length (sys_holders sys) = 1 \<or>
         sem_count (sys_mtx sys) = 1 \<and> sys_holders sys = []"
    by (simp add: cv_inv_defs)
  have phase: "(case sys_phase sys of
           Cv_asleep \<Rightarrow>
             sys_wakers sys = [] \<and> me \<in> set (cv_sync_obj (sys_cv sys))
         | Cv_woken \<Rightarrow>
             me \<notin> set (cv_sync_obj (sys_cv sys)) \<and>
             (\<exists>w. sys_wakers sys = [w] \<and> cv_waker w \<and>
                  uth_cond_var_timed_wait_resume ops (thread_ctx me) (sys_mtx sys)
                      (sys_blob sys) =
                    Some (if sem_count (sys_mtx sys) > 0
                          then (Returned (w \<noteq> Alarm_fires),
                                (sys_mtx sys)\<lparr> sem_count := sem_count (sys_mtx sys) - 1 \<rparr>,
                                (case sys_blob sys of None \<Rightarrow> []
                                 | Some b \<Rightarrow> [Unset_alarm me]) @
                                [Spin_lock Sem_lock, Spin_unlock Sem_lock])
                          else (Yielded (w \<noteq> Alarm_fires),
                                (sys_mtx sys)
                                  \<lparr> sem_sync_obj := sem_sync_obj (sys_mtx sys) @ [me] \<rparr>,
                                (case sys_blob sys of None \<Rightarrow> []
                                 | Some b \<Rightarrow> [Unset_alarm me]) @
                                [Spin_lock Sem_lock, Yield me, Has_blocked me,
                                 Spin_unlock Sem_lock])))
         | Mtx_asleep ret \<Rightarrow>
             me \<in> set (sem_sync_obj (sys_mtx sys)) \<and>
             (\<exists>w. sys_wakers sys = [w] \<and> cv_waker w \<and> ret = (w \<noteq> Alarm_fires)) \<and>
             (abs_timeout = None \<longrightarrow> ret)
         | Mtx_woken ret \<Rightarrow>
             sys_holders sys = [me] \<and> sem_count (sys_mtx sys) = 0 \<and>
             (\<exists>w u. sys_wakers sys = [w, u] \<and> cv_waker w \<and> is_unlock u \<and>
                    ret = (w \<noteq> Alarm_fires)) \<and>
             (abs_timeout = None \<longrightarrow> ret)
         | Returned_wait ret \<Rightarrow>
             sys_holders sys = [me] \<and> sem_count (sys_mtx sys) = 0 \<and>
             (\<exists>w. (sys_wakers sys = [w] \<or> (\<exists>u. sys_wakers sys = [w, u] \<and> is_unlock u)) \<and>
                  cv_waker w \<and> ret = (w \<noteq> Alarm_fires)) \<and>
             (abs_timeout = None \<longrightarrow> ret))"
  proof (cases "sys_phase sys")
    case Cv_asleep
    with inv show ?thesis by (auto simp: cv_inv_defs dest: count_list_one_mem)
  next
    case Cv_woken
    with inv obtain w where w: "sys_wakers sys = [w]" "cv_waker w"
      "me \<notin> set (cv_sync_obj (sys_cv sys))"
      "(case sys_blob sys of None \<Rightarrow> True | Some b \<Rightarrow> \<not> timed_out b) = (w \<noteq> Alarm_fires)"
      by (auto simp: cv_inv_defs split: option.splits)
    show ?thesis
    proof (cases "sys_blob sys")
      case None
      with Cv_woken w res show ?thesis by (simp add: Let_def thread_ctx_sel)
    next
      case (Some b)
      with Cv_woken w res bu[OF Some] show ?thesis by (simp add: Let_def thread_ctx_sel)
    qed
  next
    case (Mtx_asleep ret)
    with inv none show ?thesis by (auto simp: cv_inv_defs dest: count_list_one_mem)
  next
    case (Mtx_woken ret)
    with inv none excl show ?thesis by (auto simp: cv_inv_defs)
  next
    case (Returned_wait ret)
    with inv none excl show ?thesis by (auto simp: cv_inv_defs)
  qed
  from call start q0 run excl phase show ?thesis by blast
qed

theorem cond_var_timed_wait_contract_witness:
  "default_sync no_hooks \<and>
   \<not> cv_lock \<lparr> cv_lock = False, cv_sync_obj = [7], cv_once_ctl = True \<rparr> \<and> 1 \<notin> set (cv_sync_obj \<lparr> cv_lock = False, cv_sync_obj = [7], cv_once_ctl = True \<rparr>) \<and>
   sem_once_ctl \<lparr> sem_lock = False, sem_count = 0, sem_sync_obj = [], sem_once_ctl = True \<rparr> \<and> \<not> sem_lock \<lparr> sem_lock = False, sem_count = 0, sem_sync_obj = [], sem_once_ctl = True \<rparr> \<and> sem_count \<lparr> sem_lock = False, sem_count = 0, sem_sync_obj = [], sem_once_ctl = True \<rparr> = 0 \<and>
   1 \<notin> set (sem_sync_obj \<lparr> sem_lock = False, sem_count = 0, sem_sync_obj = [], sem_once_ctl = True \<rparr>) \<and>
   act_thread Signal \<noteq> Some 1 \<and> act_thread Broadcast \<noteq> Some 1 \<and>
   act_thread Alarm_fires \<noteq> Some 1 \<and> act_thread Cb_unlock \<noteq> Some 1 \<and>
   act_thread Me_runs \<noteq> Some 1 \<and> act_thread (Other_lock 5) \<noteq> Some 1 \<and>
   act_thread (Other_unlock 5) \<noteq> Some 1 \<and>
   uth_cond_var_timed_wait no_hooks (thread_ctx 1) \<lparr> cv_lock = False, cv_sync_obj = [7], cv_once_ctl = True \<rparr> \<lparr> sem_lock = False, sem_count = 0, sem_sync_obj = [], sem_once_ctl = True \<rparr> (Some 50) =
     Some (Yielded (Some \<lparr> timed_out = False, uth = 1, lock_ptr = Cv_lock \<rparr>),
           \<lparr> cv_lock = False, cv_sync_obj = [7, 1], cv_once_ctl = True \<rparr>,
           \<lparr> sem_lock = False, sem_count = 1, sem_sync_obj = [], sem_once_ctl = True \<rparr>,
           [Spin_lock Cv_lock, Set_alarm 1 50, Yield 1, Has_blocked 1, Spin_unlock Cv_lock,
            Spin_lock Sem_lock, Spin_unlock Sem_lock]) \<and>
   cv_wait_start no_hooks 1 \<lparr> cv_lock = False, cv_sync_obj = [7], cv_once_ctl = True \<rparr> \<lparr> sem_lock = False, sem_count = 0, sem_sync_obj = [], sem_once_ctl = True \<rparr> (Some 50) =
     Some \<lparr> sys_cv = \<lparr> cv_lock = False, cv_sync_obj = [7, 1], cv_once_ctl = True \<rparr>,
         sys_mtx = \<lparr> sem_lock = False, sem_count = 0, sem_sync_obj = [], sem_once_ctl = True \<rparr>,
         sys_blob = Some \<lparr> timed_out = False, uth = 1, lock_ptr = Cv_lock \<rparr>,
         sys_armed = True, sys_cb_pending = True, sys_holders = [1], sys_phase = Cv_asleep,
         sys_wakers = [] \<rparr> \<and>
   cv_run no_hooks 1
       \<lparr> sys_cv = \<lparr> cv_lock = False, cv_sync_obj = [7, 1], cv_once_ctl = True \<rparr>,
         sys_mtx = \<lparr> sem_lock = False, sem_count = 0, sem_sync_obj = [], sem_once_ctl = True \<rparr>,
         sys_blob = Some \<lparr> timed_out = False, uth = 1, lock_ptr = Cv_lock \<rparr>,
         sys_armed = True, sys_cb_pending = True, sys_holders = [1], sys_phase = Cv_asleep,
         sys_wakers = [] \<rparr>
       [Signal, Signal, Me_runs, Cb_unlock, Me_runs] =
     Some \<lparr> sys_cv = \<lparr> cv_lock = False, cv_sync_obj = [], cv_once_ctl = True \<rparr>,
         sys_mtx = \<lparr> sem_lock = False, sem_count = 0, sem_sync_obj = [], sem_once_ctl = True \<rparr>,
         sys_blob = Some \<lparr> timed_out = False, uth = 1, lock_ptr = Cv_lock \<rparr>,
         sys_armed = False, sys_cb_pending = False, sys_holders = [1], sys_phase = Returned_wait True,
         sys_wakers = [Signal, Cb_unlock] \<rparr> \<and>
   cv_run no_hooks 1
       \<lparr> sys_cv = \<lparr> cv_lock = False, cv_sync_obj = [7, 1], cv_once_ctl = True \<rparr>,
         sys_mtx = \<lparr> sem_lock = False, sem_count = 0, sem_sync_obj = [], sem_once_ctl = True \<rparr>,
         sys_blob = Some \<lparr> timed_out = False, uth = 1, lock_ptr = Cv_lock \<rparr>,
         sys_armed = True, sys_cb_pending = True, sys_holders = [1], sys_phase = Cv_asleep,
         sys_wakers = [] \<rparr>
       [Cb_unlock, Other_lock 5, Alarm_fires, Me_runs, Other_unlock 5, Me_runs] =
     Some \<lparr> sys_cv = \<lparr> cv_lock = False, cv_sync_obj = [7], cv_once_ctl = True \<rparr>,
         sys_mtx = \<lparr> sem_lock = False, sem_count = 0, sem_sync_obj = [], sem_once_ctl = True \<rparr>,
         sys_blob = Some \<lparr> timed_out = True, uth = 1, lock_ptr = Cv_lock \<rparr>,
         sys_armed = False, sys_cb_pending = False, sys_holders = [1], sys_phase = Returned_wait False,
         sys_wakers = [Alarm_fires, Other_unlock 5] \<rparr> \<and>
   cv_run no_hooks 1
       \<lparr> sys_cv = \<lparr> cv_lock = False, cv_sync_obj = [7, 1], cv_once_ctl = True \<rparr>,
         sys_mtx = \<lparr> sem_lock = False, sem_count = 0, sem_sync_obj = [], sem_once_ctl = True \<rparr>,
         sys_blob = Some \<lparr> timed_out = False, uth = 1, lock_ptr = Cv_lock \<rparr>,
         sys_armed = True, sys_cb_pending = True, sys_holders = [1], sys_phase = Cv_asleep,
         sys_wakers = [] \<rparr>
       [Cb_unlock, Broadcast, Me_runs] =
     Some \<lparr> sys_cv = \<lparr> cv_lock = False, cv_sync_obj = [], cv_once_ctl = True \<rparr>,
         sys_mtx = \<lparr> sem_lock = False, sem_count = 0, sem_sync_obj = [], sem_once_ctl = True \<rparr>,
         sys_blob = Some \<lparr> timed_out = False, uth = 1, lock_ptr = Cv_lock \<rparr>,
         sys_armed = False, sys_cb_pending = False, sys_holders = [1], sys_phase = Returned_wait True,
         sys_wakers = [Broadcast] \<rparr>"
  using cond_var_timed_wait_contract
    [of no_hooks "\<lparr> cv_lock = False, cv_sync_obj = [7], cv_once_ctl = True \<rparr>" 1
        "\<lparr> sem_lock = False, sem_count = 0, sem_sync_obj = [], sem_once_ctl = True \<rparr>"
        "[Signal, Signal, Me_runs, Cb_unlock, Me_runs]" "Some 50"]
    cond_var_timed_wait_contract
    [of no_hooks "\<lparr> cv_lock = False, cv_sync_obj = [7], cv_once_ctl = True \<rparr>" 1
        "\<lparr> sem_lock = False, sem_count = 0, sem_sync_obj = [], sem_once_ctl = True \<rparr>"
        "[Cb_unlock, Other_lock 5, Alarm_fires, Me_runs, Other_unlock 5, Me_runs]" "Some 50"]
    cond_var_timed_wait_contract
    [of no_hooks "\<lparr> cv_lock = False, cv_sync_obj = [7], cv_once_ctl = True \<rparr>" 1
        "\<lparr> sem_lock = False, sem_count = 0, sem_sync_obj = [], sem_once_ctl = True \<rparr>"
        "[Cb_unlock, Broadcast, Me_runs]" "Some 50"]
  by (simp add: default_sync_def no_hooks_def thread_ctx_def cv_wait_start_def note_wake_def
        mtx_unlock_step_def uth_cond_var_timed_wait_def uth_cond_var_timed_wait_enqueue_def
        uth_cond_var_timed_wait_resume_def uth_cond_var_timed_wait_return_def
        uu_cv_wait_cb_def uu_cv_wait_cb_enqueue_def uth_cond_var_signal_def
        uth_cond_var_broadcast_def uu_uth_sync_wake_all_def wake_all_loop_default
        uu_uth_sync_is_empty_def uth_default_sync_is_empty_def uu_uth_sync_init_def
        uth_default_sync_init_def uu_uth_sync_swap_def uth_default_sync_swap_def
        uth_mutex_unlock_def uth_mutex_lock_def uth_semaphore_up_def
        uth_semaphore_down_def uth_semaphore_timed_down_def uu_semaphore_cb_def
        timeout_handler_def set_timeout_blob_def set_timeout_alarm_def parlib_run_once_def
        spin_pdr_lock_def spin_pdr_unlock_def uu_uth_sync_enqueue_def
        uth_default_sync_enqueue_def uu_uth_sync_get_next_def uth_default_sync_get_next_def
        uu_uth_sync_get_uth_def Let_def)

section \<open>Recursive accounting\<close>

lemma word32_of_nat_eq_0:
  "m < 2 ^ 32 \<Longrightarrow> (of_nat m :: 32 word) = 0 \<longleftrightarrow> m = 0"
  by (auto simp: word_of_nat_eq_0_iff dest: dvd_imp_le)

lemma word32_of_nat_pred:
  "0 < n \<Longrightarrow> (of_nat n :: 32 word) - 1 = of_nat (n - 1)"
  by (cases n) simp_all

lemma relock_owner:
  assumes "can_block ctx" and "rm_once_ctl r" and "rm_lockholder r = Some (current_uthread ctx)"
  shows "r_call_step ops ctx r c = Some (Returned True, r\<lparr> rm_count := rm_count r + 1 \<rparr>, [])"
  using assms
  by (cases c)
     (simp_all add: uth_recurse_mutex_lock_def uth_recurse_mutex_timed_lock_def
        uth_recurse_mutex_trylock_def parlib_run_once_def Let_def)

lemma r_lock_seq_owner:
  assumes "can_block ctx"
  shows "rm_once_ctl r \<Longrightarrow> rm_lockholder r = Some (current_uthread ctx) \<Longrightarrow>
         r_lock_seq ops ctx r cs = Some (r\<lparr> rm_count := rm_count r + of_nat (length cs) \<rparr>)"
proof (induction cs arbitrary: r)
  case Nil
  then show ?case by simp
next
  case (Cons c cs)
  have step: "r_call_step ops ctx r c = Some (Returned True, r\<lparr> rm_count := rm_count r + 1 \<rparr>, [])"
    using relock_owner[OF assms Cons.prems] .
  have "r_lock_seq ops ctx (r\<lparr> rm_count := rm_count r + 1 \<rparr>) cs =
        Some (r\<lparr> rm_count := rm_count r + 1 + of_nat (length cs) \<rparr>)"
    using Cons.IH[of "r\<lparr> rm_count := rm_count r + 1 \<rparr>"] Cons.prems by simp
  with step show ?case by (simp add: add.assoc add.commute)
qed

lemma run_once_mtx_unlocked:
  "\<not> sem_lock m \<Longrightarrow>
   \<not> sem_lock (parlib_run_once sem_once_ctl sem_once_ctl_update (uu_uth_mutex_init ops) m)"
  by (simp add: parlib_run_once_def uu_uth_mutex_init_def uu_uth_semaphore_init_def
        spin_pdr_init_def Let_def)

lemma timed_down_returned:
  "uth_semaphore_timed_down ops ctx m abs_timeout = Some (Returned b, m', log) \<Longrightarrow>
   b \<and> \<not> sem_lock m' \<and> sem_once_ctl m'"
  by (auto simp: uth_semaphore_timed_down_def Let_def spin_pdr_lock_def spin_pdr_unlock_def
        uu_semaphore_cb_def parlib_run_once_def
        split: if_splits option.splits prod.splits)

lemma trydown_returned:
  "uth_semaphore_trydown ops ctx m = Some (b, m', log) \<Longrightarrow> \<not> sem_lock m' \<and> sem_once_ctl m'"
  by (auto simp: uth_semaphore_trydown_def Let_def spin_pdr_lock_def spin_pdr_unlock_def
        parlib_run_once_def split: if_splits option.splits prod.splits)

lemma first_call_owner:
  assumes "rm_lockholder r0 \<noteq> Some (current_uthread ctx)"
    and "r_first_lock ops ctx r0 (First_call c) = Some r1"
  shows "rm_lockholder r1 = Some (current_uthread ctx) \<and> rm_count r1 = 1 \<and> rm_once_ctl r1 \<and>
         \<not> sem_lock (rm_mtx r1)"
proof -
  let ?r = "parlib_run_once rm_once_ctl rm_once_ctl_update (uu_uth_recurse_mutex_init ops) r0"
  have nh: "rm_lockholder ?r \<noteq> Some (current_uthread ctx)" and oc: "rm_once_ctl ?r"
    using assms(1) by (auto simp: parlib_run_once_def uu_uth_recurse_mutex_init_def Let_def)
  show ?thesis
  proof (cases c)
    case R_lock
    with assms(2) nh oc show ?thesis
      by (auto simp: uth_recurse_mutex_lock_def uth_recurse_mutex_timed_lock_def Let_def
            uth_mutex_timed_lock_def
            split: if_splits option.splits prod.splits yield.splits bool.splits
            dest!: timed_down_returned)
  next
    case (R_timed_lock ts)
    with assms(2) nh oc show ?thesis
      by (auto simp: uth_recurse_mutex_timed_lock_def Let_def uth_mutex_timed_lock_def
            split: if_splits option.splits prod.splits yield.splits bool.splits
            dest!: timed_down_returned)
  next
    case R_trylock
    with assms(2) nh oc show ?thesis
      by (auto simp: uth_recurse_mutex_trylock_def Let_def uth_mutex_trylock_def
            split: if_splits option.splits prod.splits yield.splits bool.splits
            dest!: trydown_returned)
  qed
qed

lemma first_resumed_owner:
  assumes "r_first_lock ops ctx r0 (First_resumed blob) = Some r1"
  shows "r1 = r0\<lparr> rm_lockholder := Some (current_uthread ctx), rm_count := 1 \<rparr>"
  using assms
  by (auto simp: uth_recurse_mutex_timed_lock_resume_def Let_def
        split: if_splits prod.splits bool.splits)

lemma up_returns:
  "\<not> sem_lock m \<Longrightarrow> \<exists>m' log. uth_semaphore_up ops m = Some (m', log) \<and> \<not> sem_lock m'"
  using run_once_sem_unlocked[of m ops]
  by (auto simp: uth_semaphore_up_def Let_def spin_pdr_lock_def spin_pdr_unlock_def
        split: option.splits prod.splits)

lemma unlock_inner:
  assumes "1 < n" and "n \<le> 2 ^ 32" and "rm_count r = of_nat n"
  shows "uth_recurse_mutex_unlock ops r = Some (r\<lparr> rm_count := of_nat (n - 1) \<rparr>, [])"
proof -
  have "(of_nat (n - 1) :: 32 word) \<noteq> 0"
    using assms(1,2) word32_of_nat_eq_0[of "n - 1"] by simp
  moreover have "rm_count r - 1 = of_nat (n - 1)"
    using assms(1,3) word32_of_nat_pred[of n] by simp
  ultimately show ?thesis
    by (simp add: uth_recurse_mutex_unlock_def Let_def)
qed

lemma unlock_last:
  assumes "rm_count r = 1" and "\<not> sem_lock (rm_mtx r)"
  shows "\<exists>m' log. uth_mutex_unlock ops (rm_mtx r) = Some (m', log) \<and>
           uth_recurse_mutex_unlock ops r =
             Some (r\<lparr> rm_count := 0, rm_lockholder := None, rm_mtx := m' \<rparr>, log)"
  using assms up_returns[OF assms(2), of ops]
  by (auto simp: uth_recurse_mutex_unlock_def uth_mutex_unlock_def Let_def)

lemma r_unlock_n_inner:
  "j < n \<Longrightarrow> n \<le> 2 ^ 32 \<Longrightarrow> rm_count r = of_nat n \<Longrightarrow>
   r_unlock_n ops r j = Some (r\<lparr> rm_count := of_nat (n - j) \<rparr>)"
proof (induction j arbitrary: r n)
  case 0
  then show ?case by simp
next
  case (Suc j)
  from Suc.prems have n: "1 < n" by simp
  have "r_unlock_n ops (r\<lparr> rm_count := of_nat (n - 1) \<rparr>) j =
        Some (r\<lparr> rm_count := of_nat (n - 1) \<rparr>\<lparr> rm_count := of_nat (n - 1 - j) \<rparr>)"
    using Suc.prems by (intro Suc.IH) simp_all
  with unlock_inner[OF n Suc.prems(2,3), of ops] show ?case by simp
qed

lemma r_unlock_n_add:
  "r_unlock_n ops r (a + b) =
     (case r_unlock_n ops r a of None \<Rightarrow> None | Some r' \<Rightarrow> r_unlock_n ops r' b)"
  by (induction a arbitrary: r) (auto split: option.splits)

lemma r_unlock_n_all:
  assumes "0 < n" and "n \<le> 2 ^ 32" and "rm_count r = of_nat n" and "\<not> sem_lock (rm_mtx r)"
  shows "\<exists>m' log. uth_mutex_unlock ops (rm_mtx r) = Some (m', log) \<and>
           r_unlock_n ops r n = Some (r\<lparr> rm_count := 0, rm_lockholder := None, rm_mtx := m' \<rparr>)"
proof -
  obtain j where j: "n = j + 1" using assms(1) by (cases n) auto
  let ?r = "r\<lparr> rm_count := of_nat (n - j) \<rparr>"
  have a: "r_unlock_n ops r j = Some ?r"
    using r_unlock_n_inner[of j n r ops] assms j by simp
  have "rm_count ?r = 1" "\<not> sem_lock (rm_mtx ?r)" using j assms(4) by simp_all
  from unlock_last[OF this, of ops] obtain m' log where
    m: "uth_mutex_unlock ops (rm_mtx r) = Some (m', log)"
       "uth_recurse_mutex_unlock ops ?r =
          Some (?r\<lparr> rm_count := 0, rm_lockholder := None, rm_mtx := m' \<rparr>, log)"
    by auto
  have "r_unlock_n ops r (j + 1) =
          Some (r\<lparr> rm_count := 0, rm_lockholder := None, rm_mtx := m' \<rparr>)"
    unfolding r_unlock_n_add a using m(2) by simp
  with m(1) show ?thesis by (simp add: j)
qed

lemma word32_wraps: "(of_nat (2 ^ 32) :: 32 word) = 0"
  by simp

text \<open>
  Claim C8, as stated for every number \<open>k\<close> of lock calls, fails once the 32-bit
  recursion count wraps around. Thread 1 takes a free recursive mutex with a trylock and
  locks it \<open>2 ^ 32\<close> more times, \<open>k = 2 ^ 32 + 1\<close> successful calls in all; the count is
  then 1 again, and the first of the \<open>k\<close> unlocks, an intermediate one, already clears the
  owner and releases the embedded mutex.
\<close>

theorem recursive_mutex_wrap_counterexample:
  "r_first_lock no_hooks (thread_ctx 1)
     \<lparr> rm_mtx = \<lparr> sem_lock = False, sem_count = 1, sem_sync_obj = [], sem_once_ctl = True \<rparr>,
       rm_lockholder = None, rm_count = 0, rm_once_ctl = True \<rparr> (First_call R_trylock) =
     Some \<lparr> rm_mtx = \<lparr> sem_lock = False, sem_count = 0, sem_sync_obj = [], sem_once_ctl = True \<rparr>,
            rm_lockholder = Some 1, rm_count = 1, rm_once_ctl = True \<rparr> \<and>
   r_lock_seq no_hooks (thread_ctx 1)
     \<lparr> rm_mtx = \<lparr> sem_lock = False, sem_count = 0, sem_sync_obj = [], sem_once_ctl = True \<rparr>,
       rm_lockholder = Some 1, rm_count = 1, rm_once_ctl = True \<rparr>
     (replicate (2 ^ 32) R_trylock) =
     Some \<lparr> rm_mtx = \<lparr> sem_lock = False, sem_count = 0, sem_sync_obj = [], sem_once_ctl = True \<rparr>,
            rm_lockholder = Some 1, rm_count = 1, rm_once_ctl = True \<rparr> \<and>
   Suc 0 < Suc (length (replicate (2 ^ 32) R_trylock)) \<and>
   r_unlock_n no_hooks
     \<lparr> rm_mtx = \<lparr> sem_lock = False, sem_count = 0, sem_sync_obj = [], sem_once_ctl = True \<rparr>,
       rm_lockholder = Some 1, rm_count = 1, rm_once_ctl = True \<rparr> (Suc 0) =
     Some \<lparr> rm_mtx = \<lparr> sem_lock = False, sem_count = 1, sem_sync_obj = [], sem_once_ctl = True \<rparr>,
            rm_lockholder = None, rm_count = 0, rm_once_ctl = True \<rparr>"
proof -
  let ?m1 = "\<lparr> sem_lock = False, sem_count = 1, sem_sync_obj = [], sem_once_ctl = True \<rparr>"
  let ?m0 = "\<lparr> sem_lock = False, sem_count = 0, sem_sync_obj = [], sem_once_ctl = True \<rparr>"
  let ?r0 = "\<lparr> rm_mtx = ?m1, rm_lockholder = None, rm_count = 0, rm_once_ctl = True \<rparr>"
  let ?r1 = "\<lparr> rm_mtx = ?m0, rm_lockholder = Some 1, rm_count = 1, rm_once_ctl = True \<rparr>"
  have first: "r_first_lock no_hooks (thread_ctx 1) ?r0 (First_call R_trylock) = Some ?r1"
    by (simp add: uth_recurse_mutex_trylock_def uth_mutex_trylock_def
          uth_semaphore_trydown_def parlib_run_once_def spin_pdr_lock_def spin_pdr_unlock_def
          thread_ctx_def Let_def)
  have cb: "can_block (thread_ctx 1)" by (simp add: thread_ctx_def)
  have "r_lock_seq no_hooks (thread_ctx 1) ?r1 (replicate (2 ^ 32) R_trylock) =
        Some (?r1\<lparr> rm_count := rm_count ?r1 + of_nat (length (replicate (2 ^ 32) R_trylock :: r_call list)) \<rparr>)"
    by (rule r_lock_seq_owner[OF cb]) (simp_all add: thread_ctx_def)
  then have seq: "r_lock_seq no_hooks (thread_ctx 1) ?r1 (replicate (2 ^ 32) R_trylock) = Some ?r1"
    by (simp only: length_replicate word32_wraps) simp
  have len: "Suc 0 < Suc (length (replicate (2 ^ 32) R_trylock))"
    by (simp only: length_replicate) simp
  have unl: "r_unlock_n no_hooks ?r1 (Suc 0) = Some ?r0"
    by (simp add: uth_recurse_mutex_unlock_def uth_mutex_unlock_def uth_semaphore_up_def
          parlib_run_once_def spin_pdr_lock_def spin_pdr_unlock_def uu_uth_sync_get_next_def
          uth_default_sync_get_next_def no_hooks_def Let_def)
  from first seq len unl show ?thesis by (intro conjI)
qed

text \<open>
  Claim C8, amended to at most \<open>2 ^ 32\<close> lock calls. A thread that does not own the
  recursive mutex completes a first lock, timed lock or trylock successfully (at once, or
  after a yield when the code after the yield has run): it is then the owner with count
  1. Any \<open>k - 1\<close> further lock, timed lock and trylock calls of the owner return true
  without yielding and leave the count at \<open>k\<close>. With \<open>k \<le> 2 ^ 32\<close>, each of the first
  \<open>k - 1\<close> unlocks then leaves the thread as owner and the count one lower, changing
  nothing else, and the \<open>k\<close>-th unlock leaves no owner, count 0, and the embedded mutex
  unlocked by \<^verbatim>\<open>uth_mutex_unlock\<close>. A timed lock of a non-owner that yields leaves owner
  and count as they are, and when it has timed out the code after the yield returns false
  and leaves the whole recursive mutex as it is.
\<close>

theorem recursive_mutex_accounting:
  assumes "can_block ctx"
    and "rm_lockholder r0 \<noteq> Some (current_uthread ctx)"
    and "\<not> sem_lock (rm_mtx r0)"
    and "rm_once_ctl r0 \<or> (\<exists>c. first = First_call c)"
    and "r_first_lock ops ctx r0 first = Some r1"
    and "k = Suc (length cs)" and "k \<le> 2 ^ 32"
  shows "rm_lockholder r1 = Some (current_uthread ctx) \<and> rm_count r1 = 1 \<and>
         r_lock_seq ops ctx r1 cs = Some (r1\<lparr> rm_count := of_nat k \<rparr>) \<and>
         (\<forall>j < k. r_unlock_n ops (r1\<lparr> rm_count := of_nat k \<rparr>) j =
                    Some (r1\<lparr> rm_count := of_nat (k - j) \<rparr>)) \<and>
         (\<exists>m' log. uth_mutex_unlock ops (rm_mtx r1) = Some (m', log) \<and>
            r_unlock_n ops (r1\<lparr> rm_count := of_nat k \<rparr>) k =
              Some (r1\<lparr> rm_count := 0, rm_lockholder := None, rm_mtx := m' \<rparr>)) \<and>
         (rm_once_ctl r \<and>
          uth_recurse_mutex_timed_lock ops ctx' r abs_timeout = Some (Yielded blob, r', log)
            \<longrightarrow> rm_lockholder r' = rm_lockholder r \<and> rm_count r' = rm_count r) \<and>
         (timed_out b \<longrightarrow>
            uth_recurse_mutex_timed_lock_resume ctx' r'' (Some b) =
              (False, r'', [Unset_alarm (uth b)]))"
proof -
  have r1: "rm_lockholder r1 = Some (current_uthread ctx) \<and> rm_count r1 = 1 \<and> rm_once_ctl r1 \<and>
         \<not> sem_lock (rm_mtx r1)"
  proof (cases first)
    case (First_call c)
    with first_call_owner[OF assms(2), of ops c r1] assms(5) show ?thesis by simp
  next
    case (First_resumed blob)
    with first_resumed_owner[of ops ctx r0 blob r1] assms(3,4,5) show ?thesis by simp
  qed
  let ?rk = "r1\<lparr> rm_count := of_nat k \<rparr>"
  have seq: "r_lock_seq ops ctx r1 cs = Some ?rk"
    using r_lock_seq_owner[OF assms(1), of r1 ops cs] r1 assms(6) by simp
  have inner: "\<forall>j < k. r_unlock_n ops ?rk j = Some (r1\<lparr> rm_count := of_nat (k - j) \<rparr>)"
  proof (intro allI impI)
    fix j assume "j < k"
    from r_unlock_n_inner[OF this assms(7), of ?rk ops] show
      "r_unlock_n ops ?rk j = Some (r1\<lparr> rm_count := of_nat (k - j) \<rparr>)" by simp
  qed
  have last: "\<exists>m' log. uth_mutex_unlock ops (rm_mtx r1) = Some (m', log) \<and>
            r_unlock_n ops ?rk k = Some (r1\<lparr> rm_count := 0, rm_lockholder := None, rm_mtx := m' \<rparr>)"
    using r_unlock_n_all[of k ?rk ops] assms(6,7) r1 by simp
  have yld: "rm_once_ctl r \<and>
          uth_recurse_mutex_timed_lock ops ctx' r abs_timeout = Some (Yielded blob, r', log)
            \<longrightarrow> rm_lockholder r' = rm_lockholder r \<and> rm_count r' = rm_count r"
    by (auto simp: uth_recurse_mutex_timed_lock_def parlib_run_once_def Let_def
          split: if_splits option.splits prod.splits yield.splits)
  have tmo: "timed_out b \<longrightarrow>
            uth_recurse_mutex_timed_lock_resume ctx' r'' (Some b) =
              (False, r'', [Unset_alarm (uth b)])"
    by (simp add: uth_recurse_mutex_timed_lock_resume_def uth_mutex_timed_lock_resume_def
          uth_semaphore_timed_down_resume_def)
  from r1 seq inner last yld tmo show ?thesis by blast
qed

theorem recursive_mutex_accounting_witness:
  "can_block (thread_ctx 1) \<and>
   rm_lockholder
     \<lparr> rm_mtx = \<lparr> sem_lock = False, sem_count = 1, sem_sync_obj = [], sem_once_ctl = True \<rparr>,
       rm_lockholder = None, rm_count = 0, rm_once_ctl = True \<rparr>
     \<noteq> Some (current_uthread (thread_ctx 1)) \<and>
   \<not> sem_lock (rm_mtx
     \<lparr> rm_mtx = \<lparr> sem_lock = False, sem_count = 1, sem_sync_obj = [], sem_once_ctl = True \<rparr>,
       rm_lockholder = None, rm_count = 0, rm_once_ctl = True \<rparr>) \<and>
   r_first_lock no_hooks (thread_ctx 1)
     \<lparr> rm_mtx = \<lparr> sem_lock = False, sem_count = 1, sem_sync_obj = [], sem_once_ctl = True \<rparr>,
       rm_lockholder = None, rm_count = 0, rm_once_ctl = True \<rparr> (First_call R_lock) =
     Some \<lparr> rm_mtx = \<lparr> sem_lock = False, sem_count = 0, sem_sync_obj = [], sem_once_ctl = True \<rparr>,
            rm_lockholder = Some 1, rm_count = 1, rm_once_ctl = True \<rparr> \<and>
   (3 :: nat) = Suc (length [R_trylock, R_timed_lock 9]) \<and> (3 :: nat) \<le> 2 ^ 32 \<and>
   r_lock_seq no_hooks (thread_ctx 1)
     \<lparr> rm_mtx = \<lparr> sem_lock = False, sem_count = 0, sem_sync_obj = [], sem_once_ctl = True \<rparr>,
       rm_lockholder = Some 1, rm_count = 1, rm_once_ctl = True \<rparr>
     [R_trylock, R_timed_lock 9] =
     Some \<lparr> rm_mtx = \<lparr> sem_lock = False, sem_count = 0, sem_sync_obj = [], sem_once_ctl = True \<rparr>,
            rm_lockholder = Some 1, rm_count = 3, rm_once_ctl = True \<rparr> \<and>
   (2 :: nat) < 3 \<and>
   r_unlock_n no_hooks
     \<lparr> rm_mtx = \<lparr> sem_lock = False, sem_count = 0, sem_sync_obj = [], sem_once_ctl = True \<rparr>,
       rm_lockholder = Some 1, rm_count = 3, rm_once_ctl = True \<rparr> 2 =
     Some \<lparr> rm_mtx = \<lparr> sem_lock = False, sem_count = 0, sem_sync_obj = [], sem_once_ctl = True \<rparr>,
            rm_lockholder = Some 1, rm_count = 1, rm_once_ctl = True \<rparr> \<and>
   r_unlock_n no_hooks
     \<lparr> rm_mtx = \<lparr> sem_lock = False, sem_count = 0, sem_sync_obj = [], sem_once_ctl = True \<rparr>,
       rm_lockholder = Some 1, rm_count = 3, rm_once_ctl = True \<rparr> 3 =
     Some \<lparr> rm_mtx = \<lparr> sem_lock = False, sem_count = 1, sem_sync_obj = [], sem_once_ctl = True \<rparr>,
            rm_lockholder = None, rm_count = 0, rm_once_ctl = True \<rparr> \<and>
   uth_recurse_mutex_timed_lock no_hooks (thread_ctx 2)
     \<lparr> rm_mtx = \<lparr> sem_lock = False, sem_count = 0, sem_sync_obj = [], sem_once_ctl = True \<rparr>,
       rm_lockholder = Some 1, rm_count = 3, rm_once_ctl = True \<rparr> (Some 9) =
     Some (Yielded (Some \<lparr> timed_out = False, uth = 2, lock_ptr = Sem_lock \<rparr>),
           \<lparr> rm_mtx = \<lparr> sem_lock = False, sem_count = 0, sem_sync_obj = [2],
                      sem_once_ctl = True \<rparr>,
             rm_lockholder = Some 1, rm_count = 3, rm_once_ctl = True \<rparr>,
           [Spin_lock Sem_lock, Set_alarm 2 9, Yield 2, Has_blocked 2, Spin_unlock Sem_lock]) \<and>
   timed_out \<lparr> timed_out = True, uth = 2, lock_ptr = Sem_lock \<rparr> \<and>
   uth_recurse_mutex_timed_lock_resume (thread_ctx 2)
     \<lparr> rm_mtx = \<lparr> sem_lock = False, sem_count = 0, sem_sync_obj = [], sem_once_ctl = True \<rparr>,
       rm_lockholder = Some 1, rm_count = 3, rm_once_ctl = True \<rparr>
     (Some \<lparr> timed_out = True, uth = 2, lock_ptr = Sem_lock \<rparr>) =
     (False,
      \<lparr> rm_mtx = \<lparr> sem_lock = False, sem_count = 0, sem_sync_obj = [], sem_once_ctl = True \<rparr>,
        rm_lockholder = Some 1, rm_count = 3, rm_once_ctl = True \<rparr>,
      [Unset_alarm 2])"
proof -
  let ?m1 = "\<lparr> sem_lock = False, sem_count = 1, sem_sync_obj = [], sem_once_ctl = True \<rparr>"
  let ?m0 = "\<lparr> sem_lock = False, sem_count = 0, sem_sync_obj = [], sem_once_ctl = True \<rparr>"
  let ?r0 = "\<lparr> rm_mtx = ?m1, rm_lockholder = None, rm_count = 0, rm_once_ctl = True \<rparr>"
  let ?r1 = "\<lparr> rm_mtx = ?m0, rm_lockholder = Some 1, rm_count = 1, rm_once_ctl = True \<rparr>"
  have h1: "can_block (thread_ctx 1)" by (simp add: thread_ctx_def)
  have h2: "rm_lockholder ?r0 \<noteq> Some (current_uthread (thread_ctx 1))" by simp
  have h3: "\<not> sem_lock (rm_mtx ?r0)" by simp
  have h4: "rm_once_ctl ?r0 \<or> (\<exists>c. First_call R_lock = First_call c)" by simp
  have h5: "r_first_lock no_hooks (thread_ctx 1) ?r0 (First_call R_lock) = Some ?r1"
    by (simp add: uth_recurse_mutex_lock_def uth_recurse_mutex_timed_lock_def
          uth_mutex_timed_lock_def uth_semaphore_timed_down_def parlib_run_once_def
          spin_pdr_lock_def spin_pdr_unlock_def thread_ctx_def Let_def)
  have h6: "(3 :: nat) = Suc (length [R_trylock, R_timed_lock 9])" by simp
  have h7: "(3 :: nat) \<le> 2 ^ 32" by simp
  have up: "uth_mutex_unlock no_hooks ?m0 = Some (?m1, [Spin_lock Sem_lock, Spin_unlock Sem_lock])"
    by (simp add: uth_mutex_unlock_def uth_semaphore_up_def parlib_run_once_def
          spin_pdr_lock_def spin_pdr_unlock_def uu_uth_sync_get_next_def
          uth_default_sync_get_next_def no_hooks_def Let_def)
  note main = recursive_mutex_accounting
    [OF h1 h2 h3 h4 h5 h6 h7,
     where b = "\<lparr> timed_out = True, uth = 2, lock_ptr = Sem_lock \<rparr>"
       and ctx' = "thread_ctx 2" and r'' = "?r1\<lparr> rm_count := 3 \<rparr>"]
  from main have seq: "r_lock_seq no_hooks (thread_ctx 1) ?r1 [R_trylock, R_timed_lock 9] =
      Some (?r1\<lparr> rm_count := 3 \<rparr>)" by simp
  from main have "\<forall>j<3. r_unlock_n no_hooks (?r1\<lparr> rm_count := 3 \<rparr>) j =
      Some (?r1\<lparr> rm_count := of_nat (3 - j) \<rparr>)" by simp
  then have two: "r_unlock_n no_hooks (?r1\<lparr> rm_count := 3 \<rparr>) 2 = Some ?r1"
    by (simp add: numeral_3_eq_3 numeral_2_eq_2 del: r_unlock_n.simps)
  from main up have three: "r_unlock_n no_hooks (?r1\<lparr> rm_count := 3 \<rparr>) 3 = Some ?r0"
    by simp
  from main have tmo: "uth_recurse_mutex_timed_lock_resume (thread_ctx 2) (?r1\<lparr> rm_count := 3 \<rparr>)
      (Some \<lparr> timed_out = True, uth = 2, lock_ptr = Sem_lock \<rparr>) =
      (False, ?r1\<lparr> rm_count := 3 \<rparr>, [Unset_alarm 2])" by simp
  have yl: "uth_recurse_mutex_timed_lock no_hooks (thread_ctx 2) (?r1\<lparr> rm_count := 3 \<rparr>) (Some 9) =
     Some (Yielded (Some \<lparr> timed_out = False, uth = 2, lock_ptr = Sem_lock \<rparr>),
           \<lparr> rm_mtx = \<lparr> sem_lock = False, sem_count = 0, sem_sync_obj = [2],
                      sem_once_ctl = True \<rparr>,
             rm_lockholder = Some 1, rm_count = 3, rm_once_ctl = True \<rparr>,
           [Spin_lock Sem_lock, Set_alarm 2 9, Yield 2, Has_blocked 2, Spin_unlock Sem_lock])"
    by (simp add: uth_recurse_mutex_timed_lock_def uth_mutex_timed_lock_def
          uth_semaphore_timed_down_def uu_semaphore_cb_def set_timeout_blob_def
          set_timeout_alarm_def parlib_run_once_def spin_pdr_lock_def spin_pdr_unlock_def
          uu_uth_sync_enqueue_def uth_default_sync_enqueue_def no_hooks_def thread_ctx_def
          Let_def)
  from h1 h2 h3 h5 h6 h7 seq two three yl tmo show ?thesis by simp
qed

end
